theory Spec2Isabelle
  imports Complex_Main
begin

section \<open>Numeric primitives\<close>

text \<open>
  The program computes on IEEE doubles. The embedding reads every finite double as the
  real number it denotes and every arithmetic operation as the exact one: rounding and
  overflow are left out. The special values (infinities, NaN) are modelled only where the
  source can produce them from finite input without raising, in \<open>calculateMagnitudes\<close>.
\<close>

text \<open>Exceptions of the Python run time that the modelled code can raise.\<close>

datatype py_error = IndexError | ValueError | TypeError

text \<open>\<open>math.radians\<close> / \<open>np.radians\<close> and \<open>math.degrees\<close> / \<open>np.degrees\<close>.\<close>

definition radians :: "real \<Rightarrow> real" where
  "radians d = d * pi / 180"

definition degrees :: "real \<Rightarrow> real" where
  "degrees r = r * 180 / pi"

text \<open>
  Python's \<open>x % m\<close> on floats: the result takes the sign of the divisor, that is
  \<open>x - m * floor (x / m)\<close>. The source only uses the moduli 360, 2 and \<open>2 * pi\<close>.
\<close>

definition pymod :: "real \<Rightarrow> real \<Rightarrow> real" where
  "pymod x m = x - m * of_int \<lfloor>x / m\<rfloor>"

text \<open>
  \<open>math.atan2 y x\<close> / \<open>np.arctan2 y x\<close> on reals: the angle of the point \<open>(x, y)\<close> in
  \<open>(-pi, pi]\<close>, and 0 at the origin.
\<close>

definition arctan2 :: "real \<Rightarrow> real \<Rightarrow> real" where
  "arctan2 y x =
     (if 0 < x then arctan (y / x)
      else if x < 0 then (if 0 \<le> y then arctan (y / x) + pi else arctan (y / x) - pi)
      else if 0 < y then pi / 2
      else if y < 0 then - (pi / 2)
      else 0)"

section \<open>The forward distortion polynomial and field correction\<close>

text \<open>
  \<open>applyFieldCorrection\<close>, the value of \<open>dX\<close> for a centred point: twelve terms, the
  coefficients read by index from \<open>x_poly_fwd\<close>.
\<close>

definition dX_fwd :: "real list \<Rightarrow> real \<Rightarrow> real \<Rightarrow> real" where
  "dX_fwd x_poly_fwd Xdet Ydet =
     x_poly_fwd ! 0
     + x_poly_fwd ! 1 * Xdet
     + x_poly_fwd ! 2 * Ydet
     + x_poly_fwd ! 3 * Xdet ^ 2
     + x_poly_fwd ! 4 * Xdet * Ydet
     + x_poly_fwd ! 5 * Ydet ^ 2
     + x_poly_fwd ! 6 * Xdet ^ 3
     + x_poly_fwd ! 7 * Xdet ^ 2 * Ydet
     + x_poly_fwd ! 8 * Xdet * Ydet ^ 2
     + x_poly_fwd ! 9 * Ydet ^ 3
     + x_poly_fwd ! 10 * Xdet * sqrt (Xdet ^ 2 + Ydet ^ 2)
     + x_poly_fwd ! 11 * Ydet * sqrt (Xdet ^ 2 + Ydet ^ 2)"

text \<open>The value of \<open>dY\<close>: the last two terms multiply \<open>Ydet\<close> first, then \<open>Xdet\<close>.\<close>

definition dY_fwd :: "real list \<Rightarrow> real \<Rightarrow> real \<Rightarrow> real" where
  "dY_fwd y_poly_fwd Xdet Ydet =
     y_poly_fwd ! 0
     + y_poly_fwd ! 1 * Xdet
     + y_poly_fwd ! 2 * Ydet
     + y_poly_fwd ! 3 * Xdet ^ 2
     + y_poly_fwd ! 4 * Xdet * Ydet
     + y_poly_fwd ! 5 * Ydet ^ 2
     + y_poly_fwd ! 6 * Xdet ^ 3
     + y_poly_fwd ! 7 * Xdet ^ 2 * Ydet
     + y_poly_fwd ! 8 * Xdet * Ydet ^ 2
     + y_poly_fwd ! 9 * Ydet ^ 3
     + y_poly_fwd ! 10 * Ydet * sqrt (Xdet ^ 2 + Ydet ^ 2)
     + y_poly_fwd ! 11 * Xdet * sqrt (Xdet ^ 2 + Ydet ^ 2)"

text \<open>
  The body of the loop of \<open>applyFieldCorrection\<close> for one row \<open>(Xdet, Ydet)\<close> of the data
  matrix: the pair \<open>(X_pix, Y_pix)\<close> stored at index \<open>i\<close>.
\<close>

definition applyFieldCorrection_point ::
  "real list \<Rightarrow> real list \<Rightarrow> real \<Rightarrow> real \<Rightarrow> real \<Rightarrow> real \<times> real \<Rightarrow> real \<times> real" where
  "applyFieldCorrection_point x_poly_fwd y_poly_fwd X_res Y_res F_scale p =
     (let Xdet = fst p - X_res / 2;
          Ydet = snd p - Y_res / 2;
          dX = dX_fwd x_poly_fwd Xdet Ydet;
          X_pix = Xdet + dX;
          dY = dY_fwd y_poly_fwd Xdet Ydet;
          Y_pix = Ydet + dY
      in (X_pix / F_scale, Y_pix / F_scale))"

text \<open>
  The loop over the rows of the data matrix, with the running index \<open>i\<close> and the two
  output arrays. Reading a coefficient list shorter than twelve raises \<open>IndexError\<close> in
  the first iteration.
\<close>

fun applyFieldCorrection_loop ::
  "real list \<Rightarrow> real list \<Rightarrow> real \<Rightarrow> real \<Rightarrow> real \<Rightarrow> (real \<times> real) list \<Rightarrow> nat
     \<Rightarrow> real list \<Rightarrow> real list \<Rightarrow> py_error + (real list \<times> real list)" where
  "applyFieldCorrection_loop xp yp X_res Y_res F_scale [] i X_corrected Y_corrected =
     Inr (X_corrected, Y_corrected)"
| "applyFieldCorrection_loop xp yp X_res Y_res F_scale (p # rest) i X_corrected Y_corrected =
     (if length xp < 12 \<or> length yp < 12 then Inl IndexError
      else
        (let q = applyFieldCorrection_point xp yp X_res Y_res F_scale p
         in applyFieldCorrection_loop xp yp X_res Y_res F_scale rest (Suc i)
              (X_corrected[i := fst q]) (Y_corrected[i := snd q])))"

text \<open>
  \<open>applyFieldCorrection\<close>: \<open>np.vstack\<close> raises \<open>ValueError\<close> when the two coordinate
  arrays differ in length; the outputs start as arrays of zeros of the inputs' shapes.
\<close>

definition applyFieldCorrection ::
  "real list \<Rightarrow> real list \<Rightarrow> real \<Rightarrow> real \<Rightarrow> real \<Rightarrow> real list \<Rightarrow> real list
     \<Rightarrow> py_error + (real list \<times> real list)" where
  "applyFieldCorrection x_poly_fwd y_poly_fwd X_res Y_res F_scale X_data Y_data =
     (if length X_data \<noteq> length Y_data then Inl ValueError
      else applyFieldCorrection_loop x_poly_fwd y_poly_fwd X_res Y_res F_scale
             (zip X_data Y_data) 0
             (replicate (length X_data) 0) (replicate (length Y_data) 0))"

section \<open>The camera model and the code outside the repository's sources\<close>

text \<open>
  The platepar object (class \<open>Platepar\<close> of \<open>RMS.Formats.Platepar\<close>), with the attributes
  this module reads. The class itself is not among the sources. The image size is an
  integer there; the functions that take it as an argument divide it by 2.0, so their
  parameter is a real.
\<close>

record platepar =
  lat :: real
  lon :: real
  elev :: real
  RA_d :: real
  dec_d :: real
  Ho :: real
  JD :: real
  UT_corr :: real
  X_res :: int
  Y_res :: int
  pos_angle_ref :: real
  F_scale :: real
  mag_0 :: real
  mag_lev :: real
  x_poly_fwd :: "real list"
  y_poly_fwd :: "real list"
  x_poly_rev :: "real list"
  y_poly_rev :: "real list"

text \<open>
  Functions this module imports from files that are not among the sources
  (\<open>RMS.Astrometry.Conversions\<close>, \<open>RMS.Astrometry.CyFunctions\<close>, \<open>RMS.Math\<close>): they are
  parameters of the model. \<open>'t\<close> is the type of a time entry. \<open>date2JD\<close> and
  \<open>datetime2JD\<close> take the entry and the \<open>UT_corr\<close> keyword; \<open>cyXYToRADec\<close> takes the
  fourteen arguments of its call in \<open>XY2CorrectedRADec\<close>.
\<close>

record 't externals =
  date2JD :: "'t \<Rightarrow> real \<Rightarrow> py_error + real"
  datetime2JD :: "'t \<Rightarrow> real \<Rightarrow> py_error + real"
  jd2Date :: "real \<Rightarrow> 't"
  cyXYToRADec :: "real list \<Rightarrow> real list \<Rightarrow> real list \<Rightarrow> real \<Rightarrow> real \<Rightarrow> real \<Rightarrow> real \<Rightarrow> real
                    \<Rightarrow> real \<Rightarrow> real \<Rightarrow> real \<Rightarrow> real \<Rightarrow> real list \<Rightarrow> real list
                    \<Rightarrow> py_error + (real list \<times> real list)"
  angularSeparation :: "real \<Rightarrow> real \<Rightarrow> real \<Rightarrow> real \<Rightarrow> real"

section \<open>Image coordinates to azimuth and altitude\<close>

text \<open>The body of the loop of \<open>XY2altAz\<close> for one corrected point \<open>(X_pix, Y_pix)\<close>.\<close>

definition XY2altAz_point ::
  "real \<Rightarrow> real \<Rightarrow> real \<Rightarrow> real \<Rightarrow> real \<Rightarrow> real \<Rightarrow> real \<times> real \<Rightarrow> real \<times> real" where
  "XY2altAz_point lat' lon' RA_d' dec_d' Ho' pos_angle_ref' p =
     (let X_pix = fst p;
          Y_pix = snd p;
          dec_rad = radians dec_d';
          sl = sin (radians lat');
          cl = cos (radians lat');
          radius = radians (sqrt (X_pix ^ 2 + Y_pix ^ 2));
          theta = radians (pymod (90 - pos_angle_ref' + degrees (arctan2 Y_pix X_pix)) 360);
          sin_t = sin dec_rad * cos radius + cos dec_rad * sin radius * cos theta;
          Dec0det = arctan2 sin_t (sqrt (1 - sin_t ^ 2));
          sin_t2 = sin theta * sin radius / cos Dec0det;
          cos_t = (cos radius - sin Dec0det * sin dec_rad) / (cos Dec0det * cos dec_rad);
          RA0det = pymod (RA_d' - degrees (arctan2 sin_t2 cos_t)) 360;
          h = radians (Ho' + lon' - RA0det);
          sh = sin h;
          sd = sin Dec0det;
          ch = cos h;
          cd = cos Dec0det;
          x = - ch * cd * sl + sd * cl;
          y = - sh * cd;
          z = ch * cd * cl + sd * sl;
          r = sqrt (x ^ 2 + y ^ 2);
          azimuth = pymod (degrees (arctan2 y x)) 360;
          altitude = degrees (arctan2 z r)
      in (azimuth, altitude))"

fun XY2altAz_loop ::
  "real \<Rightarrow> real \<Rightarrow> real \<Rightarrow> real \<Rightarrow> real \<Rightarrow> real \<Rightarrow> (real \<times> real) list \<Rightarrow> nat
     \<Rightarrow> real list \<Rightarrow> real list \<Rightarrow> real list \<times> real list" where
  "XY2altAz_loop lat' lon' RA_d' dec_d' Ho' pa [] i az_data alt_data = (az_data, alt_data)"
| "XY2altAz_loop lat' lon' RA_d' dec_d' Ho' pa (p # rest) i az_data alt_data =
     (let q = XY2altAz_point lat' lon' RA_d' dec_d' Ho' pa p
      in XY2altAz_loop lat' lon' RA_d' dec_d' Ho' pa rest (Suc i)
           (az_data[i := fst q]) (alt_data[i := snd q]))"

definition XY2altAz ::
  "real list \<Rightarrow> real list \<Rightarrow> real \<Rightarrow> real \<Rightarrow> real \<Rightarrow> real \<Rightarrow> real \<Rightarrow> real \<Rightarrow> real \<Rightarrow> real \<Rightarrow> real
     \<Rightarrow> real list \<Rightarrow> real list \<Rightarrow> py_error + (real list \<times> real list)" where
  "XY2altAz X_data Y_data lat' lon' RA_d' dec_d' Ho' X_res' Y_res' pos_angle_ref' F_scale'
      x_poly_fwd' y_poly_fwd' =
     (case applyFieldCorrection x_poly_fwd' y_poly_fwd' X_res' Y_res' F_scale' X_data Y_data of
        Inl e \<Rightarrow> Inl e
      | Inr (X_corrected, Y_corrected) \<Rightarrow>
          Inr (XY2altAz_loop lat' lon' RA_d' dec_d' Ho' pos_angle_ref'
                 (zip X_corrected Y_corrected) 0
                 (replicate (length X_corrected) 0) (replicate (length X_corrected) 0)))"

section \<open>Azimuth and altitude to right ascension and declination\<close>

text \<open>
  The trigonometric part of the loop body of \<open>altAz2RADec\<close>, from the conversion to
  radians on, for the Julian date and the altitude the loop hands it.
\<close>

definition altAz2RADec_trig :: "real \<Rightarrow> real \<Rightarrow> real \<Rightarrow> real \<Rightarrow> real \<Rightarrow> real \<Rightarrow> real \<times> real" where
  "altAz2RADec_trig sl cl lon' JD' azimuth altitude =
     (let az_rad = radians azimuth;
          alt_rad = radians altitude;
          saz = sin az_rad;
          salt = sin alt_rad;
          caz = cos az_rad;
          calt = cos alt_rad;
          x = - saz * calt;
          y = - caz * sl * calt + salt * cl;
          HA = degrees (arctan2 x y);
          T = (JD' - 2451545) / 36525;
          hour_angle = pymod (28046061837 / 100000000
                              + 36098564736629 / 100000000000 * (JD' - 2451545)
                              + 387933 / 1000000000 * T ^ 2 - T ^ 3 / 38710000) 360;
          RA = pymod (hour_angle + lon' - HA) 360;
          dec = degrees (arcsin (sl * salt + cl * calt * caz))
      in (RA, dec))"

text \<open>
  One data point of \<open>altAz2RADec\<close> after its Julian date is known: an altitude of exactly
  90 is replaced by 89.9999 before the trigonometry.
\<close>

definition altAz2RADec_point :: "real \<Rightarrow> real \<Rightarrow> real \<Rightarrow> real \<Rightarrow> real \<Rightarrow> real \<Rightarrow> real \<times> real" where
  "altAz2RADec_point sl cl lon' JD' azimuth altitude =
     (let altitude1 = (if altitude = 90 then 899999 / 10000 else altitude)
      in altAz2RADec_trig sl cl lon' JD' azimuth altitude1)"

fun altAz2RADec_loop ::
  "'t externals \<Rightarrow> real \<Rightarrow> real \<Rightarrow> real \<Rightarrow> real \<Rightarrow> 't list \<Rightarrow> bool \<Rightarrow> (real \<times> real) list \<Rightarrow> nat
     \<Rightarrow> real list \<Rightarrow> real list \<Rightarrow> real list \<Rightarrow> py_error + (real list \<times> real list \<times> real list)" where
  "altAz2RADec_loop ext sl cl lon' UT time_data dt_time [] i JD_data RA_data dec_data =
     Inr (JD_data, RA_data, dec_data)"
| "altAz2RADec_loop ext sl cl lon' UT time_data dt_time (p # rest) i JD_data RA_data dec_data =
     (if length time_data \<le> i then Inl IndexError
      else
        (case (if dt_time then datetime2JD ext (time_data ! i) (- UT)
               else date2JD ext (time_data ! i) (- UT)) of
           Inl e \<Rightarrow> Inl e
         | Inr JD' \<Rightarrow>
             (let q = altAz2RADec_point sl cl lon' JD' (fst p) (snd p)
              in altAz2RADec_loop ext sl cl lon' UT time_data dt_time rest (Suc i)
                   (JD_data[i := JD']) (RA_data[i := fst q]) (dec_data[i := snd q]))))"

definition altAz2RADec ::
  "'t externals \<Rightarrow> real \<Rightarrow> real \<Rightarrow> real \<Rightarrow> 't list \<Rightarrow> real list \<Rightarrow> real list \<Rightarrow> bool
     \<Rightarrow> py_error + (real list \<times> real list \<times> real list)" where
  "altAz2RADec ext lat' lon' UT time_data azimuth_data altitude_data dt_time =
     (let n = length azimuth_data;
          sl = sin (radians lat');
          cl = cos (radians lat')
      in if length azimuth_data \<noteq> length altitude_data then Inl ValueError
         else altAz2RADec_loop ext sl cl lon' UT time_data dt_time
                (zip azimuth_data altitude_data) 0
                (replicate n 0) (replicate n 0) (replicate n 0))"

section \<open>Equatorial to horizontal coordinates\<close>

text \<open>
  \<open>raDec2AltAz\<close>. The sine of elevation is wrapped by \<open>(sin_elev + 1) % 2 - 1\<close>, as the
  code has it. At a declination of 90 or -90 degrees the tangent has no real value: the
  double is about \<open>1.6e16\<close> where the tangent of HOL is 0, so the azimuth of the model at
  such an input is not the code's; the altitude does not depend on the tangent.
\<close>

definition raDec2AltAz :: "real \<Rightarrow> real \<Rightarrow> real \<Rightarrow> real \<Rightarrow> real \<Rightarrow> real \<times> real" where
  "raDec2AltAz JD' lon' lat' ra dec =
     (let T = (JD' - 2451545) / 36525;
          lst = pymod (28046061837 / 100000000
                       + 36098564736629 / 100000000000 * (JD' - 2451545)
                       + 387933 / 1000000000 * T ^ 2 - T ^ 3 / 38710000) 360;
          lst1 = lst + lon';
          lst_rad = radians lst1;
          lat_rad = radians lat';
          ra_rad = radians ra;
          dec_rad = radians dec;
          ha = lst_rad - ra_rad;
          ha1 = pymod (ha + pi) (2 * pi) - pi;
          azim = pi + arctan2 (sin ha1) (cos ha1 * sin lat_rad - tan dec_rad * cos lat_rad);
          sin_elev = sin lat_rad * sin dec_rad + cos lat_rad * cos dec_rad * cos ha1;
          sin_elev1 = pymod (sin_elev + 1) 2 - 1;
          elev' = arcsin sin_elev1
      in (degrees azim, degrees elev'))"

text \<open>
  Two intermediate values of \<open>raDec2AltAz\<close>, named for the statement about the altitude:
  the hour angle \<open>ha\<close> after its reduction to the range from \<open>-pi\<close> to \<open>pi\<close>, and
  \<open>sin_elev\<close> as first computed, before it is wrapped.
\<close>

definition raDec2AltAz_ha :: "real \<Rightarrow> real \<Rightarrow> real \<Rightarrow> real" where
  "raDec2AltAz_ha JD' lon' ra =
     (let T = (JD' - 2451545) / 36525;
          lst = pymod (28046061837 / 100000000
                       + 36098564736629 / 100000000000 * (JD' - 2451545)
                       + 387933 / 1000000000 * T ^ 2 - T ^ 3 / 38710000) 360;
          ha = radians (lst + lon') - radians ra
      in pymod (ha + pi) (2 * pi) - pi)"

definition raDec2AltAz_sin_elev :: "real \<Rightarrow> real \<Rightarrow> real \<Rightarrow> real \<Rightarrow> real \<Rightarrow> real" where
  "raDec2AltAz_sin_elev JD' lon' lat' ra dec =
     sin (radians lat') * sin (radians dec)
     + cos (radians lat') * cos (radians dec) * cos (raDec2AltAz_ha JD' lon' ra)"

section \<open>Magnitudes\<close>

text \<open>
  A double as numpy hands it back: a finite value, an infinity or NaN. \<open>np.log10\<close> of a
  positive level is finite; of zero it is minus infinity and of a negative level NaN, each
  with a warning and without raising. The product with the finite slope and the sum with
  the finite offset follow IEEE 754 on the special values.
\<close>

datatype npfloat = Finite real | PosInf | NegInf | NaN

definition np_log10 :: "real \<Rightarrow> npfloat" where
  "np_log10 x = (if 0 < x then Finite (log 10 x) else if x = 0 then NegInf else NaN)"

fun np_times :: "real \<Rightarrow> npfloat \<Rightarrow> npfloat" where
  "np_times a (Finite b) = Finite (a * b)"
| "np_times a PosInf = (if 0 < a then PosInf else if a < 0 then NegInf else NaN)"
| "np_times a NegInf = (if 0 < a then NegInf else if a < 0 then PosInf else NaN)"
| "np_times a NaN = NaN"

fun np_plus :: "npfloat \<Rightarrow> real \<Rightarrow> npfloat" where
  "np_plus (Finite a) b = Finite (a + b)"
| "np_plus PosInf b = PosInf"
| "np_plus NegInf b = NegInf"
| "np_plus NaN b = NaN"

fun calculateMagnitudes_loop :: "real \<Rightarrow> real \<Rightarrow> real list \<Rightarrow> nat \<Rightarrow> npfloat list \<Rightarrow> npfloat list" where
  "calculateMagnitudes_loop mag_0' mag_lev' [] i magnitude_data = magnitude_data"
| "calculateMagnitudes_loop mag_0' mag_lev' (level # rest) i magnitude_data =
     calculateMagnitudes_loop mag_0' mag_lev' rest (Suc i)
       (magnitude_data[i := np_plus (np_times mag_0' (np_log10 level)) mag_lev'])"

definition calculateMagnitudes :: "real list \<Rightarrow> real \<Rightarrow> real \<Rightarrow> npfloat list" where
  "calculateMagnitudes level_data mag_0' mag_lev' =
     calculateMagnitudes_loop mag_0' mag_lev' level_data 0
       (replicate (length level_data) (Finite 0))"

section \<open>Image coordinates to right ascension and declination\<close>

text \<open>The list comprehension over \<open>time_data\<close>: the first entry that raises ends it.\<close>

fun date2JD_all :: "'t externals \<Rightarrow> 't list \<Rightarrow> py_error + real list" where
  "date2JD_all ext [] = Inr []"
| "date2JD_all ext (e # es) =
     (case date2JD ext e 0 of
        Inl err \<Rightarrow> Inl err
      | Inr j \<Rightarrow> (case date2JD_all ext es of Inl err \<Rightarrow> Inl err | Inr js \<Rightarrow> Inr (j # js)))"

text \<open>\<open>XY2CorrectedRADec\<close>, up to its first \<open>return\<close>; the code after it is never run.\<close>

definition XY2CorrectedRADec ::
  "'t externals \<Rightarrow> 't list \<Rightarrow> real list \<Rightarrow> real list \<Rightarrow> real list \<Rightarrow> real \<Rightarrow> real \<Rightarrow> real \<Rightarrow> int \<Rightarrow> int
     \<Rightarrow> real \<Rightarrow> real \<Rightarrow> real \<Rightarrow> real \<Rightarrow> real \<Rightarrow> real \<Rightarrow> real list \<Rightarrow> real list \<Rightarrow> real
     \<Rightarrow> py_error + (real list \<times> real list \<times> real list \<times> npfloat list)" where
  "XY2CorrectedRADec ext time_data X_data Y_data level_data lat' lon' Ho' X_res' Y_res' RA_d' dec_d'
      pos_angle_ref' F_scale' mag_0' mag_lev' x_poly_fwd' y_poly_fwd' station_ht =
     (case date2JD_all ext time_data of
        Inl e \<Rightarrow> Inl e
      | Inr JD_data \<Rightarrow>
          (case cyXYToRADec ext JD_data X_data Y_data lat' lon' Ho' (of_int X_res') (of_int Y_res')
                  RA_d' dec_d' pos_angle_ref' F_scale' x_poly_fwd' y_poly_fwd' of
             Inl e \<Rightarrow> Inl e
           | Inr (RA_data, dec_data) \<Rightarrow>
               (let magnitude_data = calculateMagnitudes level_data mag_0' mag_lev'
                in Inr (JD_data, RA_data, dec_data, magnitude_data))))"

definition XY2CorrectedRADecPP ::
  "'t externals \<Rightarrow> 't list \<Rightarrow> real list \<Rightarrow> real list \<Rightarrow> real list \<Rightarrow> platepar
     \<Rightarrow> py_error + (real list \<times> real list \<times> real list \<times> npfloat list)" where
  "XY2CorrectedRADecPP ext time_data X_data Y_data level_data pp =
     XY2CorrectedRADec ext time_data X_data Y_data level_data (lat pp) (lon pp) (Ho pp)
       (X_res pp) (Y_res pp) (RA_d pp) (dec_d pp) (pos_angle_ref pp) (F_scale pp)
       (mag_0 pp) (mag_lev pp) (x_poly_fwd pp) (y_poly_fwd pp) (elev pp)"

section \<open>Rotation of the field of view\<close>

definition rotationWrtHorizon :: "platepar \<Rightarrow> py_error + real" where
  "rotationWrtHorizon pp =
     (let img_mid_w = of_int (X_res pp) / 2;
          img_mid_h = of_int (Y_res pp) / 2;
          img_up_w = img_mid_w + 10;
          img_up_h = img_mid_h
      in case XY2altAz [img_mid_w, img_up_w] [img_mid_h, img_up_h] (lat pp) (lon pp) (RA_d pp)
                (dec_d pp) (Ho pp) (of_int (X_res pp)) (of_int (Y_res pp)) (pos_angle_ref pp)
                (F_scale pp)
                (x_poly_fwd pp) (y_poly_fwd pp) of
           Inl e \<Rightarrow> Inl e
         | Inr (azim, alt) \<Rightarrow>
             (let azim_mid = azim ! 0;
                  alt_mid = alt ! 0;
                  azim_up = azim ! 1;
                  alt_up = alt ! 1;
                  rot_angle = degrees (arctan2 (radians alt_up - radians alt_mid)
                                               (radians azim_up - radians azim_mid))
              in Inr (if 180 < rot_angle then rot_angle - 360 else rot_angle)))"

text \<open>
  \<open>rotationWrtStandard\<close>: the two result arrays come from \<open>cyXYToRADec\<close>, so reading
  their entries 0 and 1 raises \<open>IndexError\<close> when one is shorter than two.
\<close>

definition rotationWrtStandard :: "'t externals \<Rightarrow> platepar \<Rightarrow> py_error + real" where
  "rotationWrtStandard ext pp =
     (let img_mid_w = of_int (X_res pp) / 2;
          img_mid_h = of_int (Y_res pp) / 2;
          img_up_w = img_mid_w + 10;
          img_up_h = img_mid_h
      in case XY2CorrectedRADecPP ext (replicate 2 (jd2Date ext (JD pp)))
                [img_mid_w, img_up_w] [img_mid_h, img_up_h] [1, 1] pp of
           Inl e \<Rightarrow> Inl e
         | Inr (jd, ra, dec, mag) \<Rightarrow>
             (if length ra < 2 \<or> length dec < 2 then Inl IndexError
              else
                (let ra_mid = ra ! 0;
                     dec_mid = dec ! 0;
                     ra_up = ra ! 1;
                     dec_up = dec ! 1;
                     rot_angle = degrees (arctan2 (radians dec_mid - radians dec_up)
                                                  (radians ra_mid - radians ra_up))
                 in Inr (pymod rot_angle 360))))"

section \<open>The position-angle solvers\<close>

text \<open>
  Platepar objects live in a heap, a list indexed by address, so that the caller's object
  and the solver's copy are two cells. \<open>copy.deepcopy\<close> allocates a new cell with the same
  field values and returns its address.
\<close>

type_synonym heap = "platepar list"

definition deepcopy :: "heap \<Rightarrow> nat \<Rightarrow> nat \<times> heap" where
  "deepcopy h a = (length h, h @ [h ! a])"

text \<open>
  \<open>scipy.optimize.minimize\<close> with \<open>method='Nelder-Mead'\<close> is library code: the model
  takes its search rule as a parameter. From the seed and the evaluations made so far
  (point and value, oldest first) the rule either asks for the objective at one more point
  or stops with an answer; \<open>maxfev\<close> bounds the number of evaluations, after which the
  best point so far is the answer. An exception raised by the objective ends the search.
\<close>

datatype nm_step = Probe real | Stop real

record nelder_mead =
  next_step :: "real \<Rightarrow> (real \<times> real) list \<Rightarrow> nm_step"
  best_point :: "real \<Rightarrow> (real \<times> real) list \<Rightarrow> real"
  maxfev :: nat

fun minimize_loop ::
  "nelder_mead \<Rightarrow> nat \<Rightarrow> (real \<Rightarrow> heap \<Rightarrow> (py_error + real) \<times> heap) \<Rightarrow> real
     \<Rightarrow> (real \<times> real) list \<Rightarrow> heap \<Rightarrow> (py_error + real) \<times> heap" where
  "minimize_loop nm 0 f x0 hist h = (Inr (best_point nm x0 hist), h)"
| "minimize_loop nm (Suc n) f x0 hist h =
     (case next_step nm x0 hist of
        Stop x \<Rightarrow> (Inr x, h)
      | Probe p \<Rightarrow>
          (case f p h of
             (Inl e, h') \<Rightarrow> (Inl e, h')
           | (Inr v, h') \<Rightarrow> minimize_loop nm n f x0 (hist @ [(p, v)]) h'))"

definition minimize ::
  "nelder_mead \<Rightarrow> (real \<Rightarrow> heap \<Rightarrow> (py_error + real) \<times> heap) \<Rightarrow> real \<Rightarrow> heap
     \<Rightarrow> (py_error + real) \<times> heap" where
  "minimize nm f x0 h = minimize_loop nm (maxfev nm) f x0 [] h"

text \<open>
  The residual both closures return, from the target angle and the value of
  \<open>rot_angle_computed\<close> (the computed rotation, already taken modulo 360).
\<close>

definition rotAngleDeviation :: "real \<Rightarrow> real \<Rightarrow> real" where
  "rotAngleDeviation rot_angle rot_angle_computed =
     180 - \<bar>\<bar>rot_angle - rot_angle_computed\<bar> - 180\<bar>"

text \<open>
  The closure \<open>_rotAngleResidual\<close> of \<open>rotationWrtHorizonToPosAngle\<close>: \<open>b\<close> is the address
  its free variable \<open>platepar\<close> holds. It writes the position angle into that object, then
  computes the rotation from it.
\<close>

definition rotAngleResidual_horizon ::
  "nat \<Rightarrow> real \<Rightarrow> real \<Rightarrow> heap \<Rightarrow> (py_error + real) \<times> heap" where
  "rotAngleResidual_horizon b rot_angle p h =
     (let h' = h[b := (h ! b)\<lparr>pos_angle_ref := p\<rparr>]
      in case rotationWrtHorizon (h' ! b) of
           Inl e \<Rightarrow> (Inl e, h')
         | Inr r \<Rightarrow> (Inr (rotAngleDeviation rot_angle (pymod r 360)), h'))"

definition rotationWrtHorizonToPosAngle ::
  "nelder_mead \<Rightarrow> heap \<Rightarrow> nat \<Rightarrow> real \<Rightarrow> (py_error + real) \<times> heap" where
  "rotationWrtHorizonToPosAngle nm h a rot_angle =
     (let (b, h1) = deepcopy h a;
          rot_angle1 = pymod rot_angle 360;
          (res, h2) = minimize nm (rotAngleResidual_horizon b rot_angle1)
                        (pos_angle_ref (h1 ! b)) h1
      in (case res of Inl e \<Rightarrow> Inl e | Inr x \<Rightarrow> Inr (pymod x 360), h2))"

text \<open>The closure and the solver of \<open>rotationWrtStandardToPosAngle\<close>.\<close>

definition rotAngleResidual_standard ::
  "'t externals \<Rightarrow> nat \<Rightarrow> real \<Rightarrow> real \<Rightarrow> heap \<Rightarrow> (py_error + real) \<times> heap" where
  "rotAngleResidual_standard ext b rot_angle p h =
     (let h' = h[b := (h ! b)\<lparr>pos_angle_ref := p\<rparr>]
      in case rotationWrtStandard ext (h' ! b) of
           Inl e \<Rightarrow> (Inl e, h')
         | Inr r \<Rightarrow> (Inr (rotAngleDeviation rot_angle (pymod r 360)), h'))"

definition rotationWrtStandardToPosAngle ::
  "'t externals \<Rightarrow> nelder_mead \<Rightarrow> heap \<Rightarrow> nat \<Rightarrow> real \<Rightarrow> (py_error + real) \<times> heap" where
  "rotationWrtStandardToPosAngle ext nm h a rot_angle =
     (let (b, h1) = deepcopy h a;
          rot_angle1 = pymod rot_angle 360;
          (res, h2) = minimize nm (rotAngleResidual_standard ext b rot_angle1)
                        (pos_angle_ref (h1 ! b)) h1
      in (case res of Inl e \<Rightarrow> Inl e | Inr x \<Rightarrow> Inr (pymod x 360), h2))"

section \<open>The pixel-to-sky step outside the sources\<close>

text \<open>
  Modelled from the spec: \<open>cyXYToRADec\<close>, the Cython function of
  \<open>RMS.Astrometry.CyFunctions\<close> that \<open>XY2CorrectedRADec\<close> calls and that is not among the
  sources. The specification's pixel-to-sky step (rectify the pixel coordinates, convert
  the rectified offset to a radius and a polar angle, reproject on the sphere around the
  reference pointing adjusted for the position angle, derive right ascension wrapped to
  [0, 360) and declination) is written with the formulas of the Python path that the
  source keeps after the call, \<open>XY2altAz\<close> followed by the loop body of \<open>altAz2RADec\<close>,
  on the Julian dates the caller has already computed.
\<close>

definition cyXYToRADec_py ::
  "real list \<Rightarrow> real list \<Rightarrow> real list \<Rightarrow> real \<Rightarrow> real \<Rightarrow> real \<Rightarrow> real \<Rightarrow> real
     \<Rightarrow> real \<Rightarrow> real \<Rightarrow> real \<Rightarrow> real \<Rightarrow> real list \<Rightarrow> real list
     \<Rightarrow> py_error + (real list \<times> real list)" where
  "cyXYToRADec_py JD_data X_data Y_data lat' lon' Ho' X_res' Y_res' RA_d' dec_d'
      pos_angle_ref' F_scale' x_poly_fwd' y_poly_fwd' =
     (case XY2altAz X_data Y_data lat' lon' RA_d' dec_d' Ho' X_res' Y_res' pos_angle_ref'
             F_scale' x_poly_fwd' y_poly_fwd' of
        Inl e \<Rightarrow> Inl e
      | Inr (az_data, alt_data) \<Rightarrow>
          (if length JD_data < length az_data then Inl IndexError
           else
             (let sl = sin (radians lat');
                  cl = cos (radians lat');
                  q = (\<lambda>i. altAz2RADec_point sl cl lon' (JD_data ! i) (az_data ! i)
                              (alt_data ! i))
              in Inr (map (\<lambda>i. fst (q i)) [0..<length az_data],
                      map (\<lambda>i. snd (q i)) [0..<length az_data]))))"

section \<open>The size of the field of view\<close>

text \<open>
  Modelled from the spec: \<open>angularSeparation\<close> of \<open>RMS.Math\<close>, which is not among the
  sources. The specification has \<open>fieldOfView\<close> compute the great-circle angular
  separation of two sky points; for points given by right ascension and declination in
  radians that is the arc whose cosine is the scalar product of their unit vectors.
\<close>

definition angularSeparation_gc :: "real \<Rightarrow> real \<Rightarrow> real \<Rightarrow> real \<Rightarrow> real" where
  "angularSeparation_gc ra1 dec1 ra2 dec2 =
     arccos (sin dec1 * sin dec2 + cos dec1 * cos dec2 * cos (ra2 - ra1))"

text \<open>
  \<open>computeFOVSize\<close>: the four points in the middle of the image sides, in the order
  left, right, top, bottom. Unpacking a result array that does not hold four values raises
  \<open>ValueError\<close>.
\<close>

definition computeFOVSize :: "'t externals \<Rightarrow> platepar \<Rightarrow> py_error + (real \<times> real)" where
  "computeFOVSize ext pp =
     (let time_data = replicate 4 (jd2Date ext (JD pp));
          x_data = [0, of_int (X_res pp), of_int (X_res pp) / 2, of_int (X_res pp) / 2];
          y_data = [of_int (Y_res pp) / 2, of_int (Y_res pp) / 2, 0, of_int (Y_res pp)];
          level_data = [1, 1, 1, 1]
      in case XY2CorrectedRADecPP ext time_data x_data y_data level_data pp of
           Inl e \<Rightarrow> Inl e
         | Inr (jd, ra_data, dec_data, mag) \<Rightarrow>
             (if length ra_data \<noteq> 4 \<or> length dec_data \<noteq> 4 then Inl ValueError
              else
                (let ra1 = ra_data ! 0; ra2 = ra_data ! 1; ra3 = ra_data ! 2; ra4 = ra_data ! 3;
                     dec1 = dec_data ! 0; dec2 = dec_data ! 1; dec3 = dec_data ! 2;
                     dec4 = dec_data ! 3;
                     fov_h = degrees (angularSeparation ext (radians ra1) (radians dec1)
                                        (radians ra2) (radians dec2));
                     fov_v = degrees (angularSeparation ext (radians ra3) (radians dec3)
                                        (radians ra4) (radians dec4))
                 in Inr (fov_h, fov_v))))"

section \<open>Quantities of the pixel-to-sky step\<close>

text \<open>
  The intermediate values of \<open>XY2altAz\<close> and \<open>altAz2RADec\<close> for one rectified point
  \<open>q = (X_pix, Y_pix)\<close>, named for the analysis of the field of view: \<open>plane_radius\<close> is
  the code's \<open>radius\<close>, \<open>plane_angle\<close> its \<open>theta\<close>, \<open>sin_dec\<close> the first value of
  \<open>sin_t\<close> (the sine of \<open>Dec0det\<close>), \<open>bearing\<close> the angle \<open>arctan2 sin_t cos_t\<close> that is
  subtracted from \<open>RA_d\<close>, \<open>point_hour_angle\<close> the hour angle \<open>h\<close> and \<open>sin_alt\<close> the
  component \<open>z\<close>. \<open>sidereal_deg\<close> is the \<open>hour_angle\<close> that \<open>altAz2RADec\<close> computes from
  the Julian date.
\<close>

definition sidereal_deg :: "real \<Rightarrow> real" where
  "sidereal_deg J =
     pymod (28046061837 / 100000000
            + 36098564736629 / 100000000000 * (J - 2451545)
            + 387933 / 1000000000 * ((J - 2451545) / 36525) ^ 2
            - ((J - 2451545) / 36525) ^ 3 / 38710000) 360"

definition plane_radius :: "real \<times> real \<Rightarrow> real" where
  "plane_radius q = radians (sqrt ((fst q)\<^sup>2 + (snd q)\<^sup>2))"

definition plane_angle :: "real \<Rightarrow> real \<times> real \<Rightarrow> real" where
  "plane_angle pa q = radians (pymod (90 - pa + degrees (arctan2 (snd q) (fst q))) 360)"

definition sin_dec :: "real \<Rightarrow> real \<Rightarrow> real \<times> real \<Rightarrow> real" where
  "sin_dec de pa q =
     sin (radians de) * cos (plane_radius q)
     + cos (radians de) * sin (plane_radius q) * cos (plane_angle pa q)"

definition bearing :: "real \<Rightarrow> real \<Rightarrow> real \<times> real \<Rightarrow> real" where
  "bearing de pa q =
     arctan2 (sin (plane_angle pa q) * sin (plane_radius q) / sqrt (1 - (sin_dec de pa q)\<^sup>2))
             ((cos (plane_radius q) - sin_dec de pa q * sin (radians de))
              / (sqrt (1 - (sin_dec de pa q)\<^sup>2) * cos (radians de)))"

definition point_hour_angle :: "real \<Rightarrow> real \<Rightarrow> real \<Rightarrow> real \<Rightarrow> real \<Rightarrow> real \<times> real \<Rightarrow> real" where
  "point_hour_angle lo ra de ho pa q =
     radians (ho + lo - pymod (ra - degrees (bearing de pa q)) 360)"

definition sin_alt :: "real \<Rightarrow> real \<Rightarrow> real \<Rightarrow> real \<Rightarrow> real \<Rightarrow> real \<Rightarrow> real \<times> real \<Rightarrow> real" where
  "sin_alt la lo ra de ho pa q =
     cos (point_hour_angle lo ra de ho pa q) * sqrt (1 - (sin_dec de pa q)\<^sup>2) * cos (radians la)
     + sin_dec de pa q * sin (radians la)"

text \<open>
  The right ascension and declination of a rectified point: \<open>XY2altAz_point\<close> followed
  by \<open>altAz2RADec_point\<close>, as in the pixel-to-sky step above. A point is regular when
  neither its altitude nor its declination is 90 or -90 degrees.
\<close>

definition pixel_sky ::
  "real \<Rightarrow> real \<Rightarrow> real \<Rightarrow> real \<Rightarrow> real \<Rightarrow> real \<Rightarrow> real \<Rightarrow> real \<times> real \<Rightarrow> real \<times> real" where
  "pixel_sky la lo ra de ho pa J q =
     altAz2RADec_point (sin (radians la)) (cos (radians la)) lo J
       (fst (XY2altAz_point la lo ra de ho pa q)) (snd (XY2altAz_point la lo ra de ho pa q))"

definition regular_sky_point ::
  "real \<Rightarrow> real \<Rightarrow> real \<Rightarrow> real \<Rightarrow> real \<Rightarrow> real \<Rightarrow> real \<Rightarrow> real \<times> real \<Rightarrow> bool" where
  "regular_sky_point la lo ra de ho pa J q \<longleftrightarrow>
     snd (XY2altAz_point la lo ra de ho pa q) \<noteq> 90
     \<and> snd (XY2altAz_point la lo ra de ho pa q) \<noteq> - 90
     \<and> snd (pixel_sky la lo ra de ho pa J q) \<noteq> 90
     \<and> snd (pixel_sky la lo ra de ho pa J q) \<noteq> - 90"

text \<open>
  The separation in degrees of the sky points of two rectified points, the rectified
  point of a pixel under a platepar, and the two values \<open>computeFOVSize\<close> returns as
  separations of the rectified middles of opposite image sides.
\<close>

definition separation_deg ::
  "real \<Rightarrow> real \<Rightarrow> real \<Rightarrow> real \<Rightarrow> real \<Rightarrow> real \<Rightarrow> real \<Rightarrow> real \<times> real \<Rightarrow> real \<times> real \<Rightarrow> real" where
  "separation_deg la lo ra de ho pa J q1 q2 =
     degrees (angularSeparation_gc (radians (fst (pixel_sky la lo ra de ho pa J q1)))
                (radians (snd (pixel_sky la lo ra de ho pa J q1)))
                (radians (fst (pixel_sky la lo ra de ho pa J q2)))
                (radians (snd (pixel_sky la lo ra de ho pa J q2))))"

definition rectified :: "platepar \<Rightarrow> real \<times> real \<Rightarrow> real \<times> real" where
  "rectified pp p =
     applyFieldCorrection_point (x_poly_fwd pp) (y_poly_fwd pp) (of_int (X_res pp))
       (of_int (Y_res pp)) (F_scale pp) p"

definition sky_separation :: "platepar \<Rightarrow> real \<Rightarrow> real \<times> real \<Rightarrow> real \<times> real \<Rightarrow> real" where
  "sky_separation pp J p1 p2 =
     separation_deg (lat pp) (lon pp) (RA_d pp) (dec_d pp) (Ho pp) (pos_angle_ref pp) J
       (rectified pp p1) (rectified pp p2)"

definition mid_left :: "platepar \<Rightarrow> real \<times> real" where
  "mid_left pp = (0, of_int (Y_res pp) / 2)"

definition mid_right :: "platepar \<Rightarrow> real \<times> real" where
  "mid_right pp = (of_int (X_res pp), of_int (Y_res pp) / 2)"

definition mid_top :: "platepar \<Rightarrow> real \<times> real" where
  "mid_top pp = (of_int (X_res pp) / 2, 0)"

definition mid_bottom :: "platepar \<Rightarrow> real \<times> real" where
  "mid_bottom pp = (of_int (X_res pp) / 2, of_int (Y_res pp))"

text \<open>
  Conditions on the four middles of the image sides: all of them regular; the rectified
  radii of opposite middles add up to at most 180 degrees, so that the field spans no
  more than half the sky; opposite middles rectified to different points.
\<close>

definition edge_midpoints_regular :: "platepar \<Rightarrow> real \<Rightarrow> bool" where
  "edge_midpoints_regular pp J \<longleftrightarrow>
     list_all (\<lambda>p. regular_sky_point (lat pp) (lon pp) (RA_d pp) (dec_d pp) (Ho pp)
                     (pos_angle_ref pp) J (rectified pp p))
       [mid_left pp, mid_right pp, mid_top pp, mid_bottom pp]"

definition field_within_half_sky :: "platepar \<Rightarrow> bool" where
  "field_within_half_sky pp \<longleftrightarrow>
     plane_radius (rectified pp (mid_left pp)) + plane_radius (rectified pp (mid_right pp)) \<le> pi
     \<and> plane_radius (rectified pp (mid_top pp)) + plane_radius (rectified pp (mid_bottom pp)) \<le> pi"

definition edge_midpoints_distinct :: "platepar \<Rightarrow> bool" where
  "edge_midpoints_distinct pp \<longleftrightarrow>
     rectified pp (mid_left pp) \<noteq> rectified pp (mid_right pp)
     \<and> rectified pp (mid_top pp) \<noteq> rectified pp (mid_bottom pp)"

section \<open>Concrete inputs\<close>

text \<open>
  A platepar of a 1280 by 720 camera without distortion, a search rule that probes one
  point and stops, and stand-ins for the imported functions whose time entries are
  Julian dates already. They serve as the concrete inputs of the instances below.
\<close>

definition sample_platepar :: platepar where
  "sample_platepar =
     \<lparr>lat = 45, lon = 15, elev = 100, RA_d = 120, dec_d = 40, Ho = 30, JD = 2451545,
      UT_corr = 0, X_res = 1280, Y_res = 720, pos_angle_ref = 10, F_scale = 16,
      mag_0 = - 5 / 2, mag_lev = 10,
      x_poly_fwd = replicate 12 0, y_poly_fwd = replicate 12 0,
      x_poly_rev = replicate 12 0, y_poly_rev = replicate 12 0\<rparr>"

definition probe_once :: nelder_mead where
  "probe_once =
     \<lparr>next_step = (\<lambda>x0 hist. if hist = [] then Probe (x0 + 5) else Stop (fst (hd hist))),
      best_point = (\<lambda>x0 hist. x0),
      maxfev = 2\<rparr>"

definition sample_externals :: "real externals" where
  "sample_externals =
     \<lparr>date2JD = (\<lambda>t u. Inr (t + u / 24)),
      datetime2JD = (\<lambda>t u. Inr (t + u / 24)),
      jd2Date = (\<lambda>j. j),
      cyXYToRADec = cyXYToRADec_py,
      angularSeparation = angularSeparation_gc\<rparr>"

text \<open>
  A platepar of a 720 by 720 camera without distortion at latitude 0 whose reference
  point has right ascension, declination, hour angle and position angle 0.
\<close>

definition equatorial_platepar :: platepar where
  "equatorial_platepar =
     \<lparr>lat = 0, lon = 0, elev = 0, RA_d = 0, dec_d = 0, Ho = 0, JD = 2451545,
      UT_corr = 0, X_res = 720, Y_res = 720, pos_angle_ref = 0, F_scale = 8,
      mag_0 = - 5 / 2, mag_lev = 10,
      x_poly_fwd = replicate 12 0, y_poly_fwd = replicate 12 0,
      x_poly_rev = replicate 12 0, y_poly_rev = replicate 12 0\<rparr>"

section \<open>The rectification as the specification words it\<close>

text \<open>
  The specification's reading of the rectification, for comparison with the code: one
  list of twelve terms in the order constant, \<open>X\<close>, \<open>Y\<close>, \<open>X\<^sup>2\<close>, \<open>XY\<close>, \<open>Y\<^sup>2\<close>, \<open>X\<^sup>3\<close>,
  \<open>X\<^sup>2Y\<close>, \<open>XY\<^sup>2\<close>, \<open>Y\<^sup>3\<close>, \<open>X r\<close>, \<open>Y r\<close> with \<open>r = sqrt (X\<^sup>2 + Y\<^sup>2)\<close>, used for both axes.
\<close>

definition spec_terms :: "real \<Rightarrow> real \<Rightarrow> real list" where
  "spec_terms X Y =
     (let r = sqrt (X ^ 2 + Y ^ 2)
      in [1, X, Y, X ^ 2, X * Y, Y ^ 2, X ^ 3, X ^ 2 * Y, X * Y ^ 2, Y ^ 3, X * r, Y * r])"

text \<open>The polynomial of twelve coefficients over a list of twelve terms.\<close>

definition poly12 :: "real list \<Rightarrow> real list \<Rightarrow> real" where
  "poly12 c ts = (\<Sum>k<12. c ! k * ts ! k)"

definition spec_rectify_point ::
  "real list \<Rightarrow> real list \<Rightarrow> real \<Rightarrow> real \<Rightarrow> real \<Rightarrow> real \<times> real \<Rightarrow> real \<times> real" where
  "spec_rectify_point xp yp Xr Yr F p =
     (let X = fst p - Xr / 2;
          Y = snd p - Yr / 2
      in ((X + poly12 xp (spec_terms X Y)) / F, (Y + poly12 yp (spec_terms X Y)) / F))"

text \<open>
  The terms the code pairs with the coefficients of the Y axis: its two radial terms are
  \<open>Y r\<close>, then \<open>X r\<close>.
\<close>

definition terms_y_axis :: "real \<Rightarrow> real \<Rightarrow> real list" where
  "terms_y_axis X Y =
     (let r = sqrt (X ^ 2 + Y ^ 2)
      in [1, X, Y, X ^ 2, X * Y, Y ^ 2, X ^ 3, X ^ 2 * Y, X * Y ^ 2, Y ^ 3, Y * r, X * r])"

definition rectify_point_by_axis ::
  "real list \<Rightarrow> real list \<Rightarrow> real \<Rightarrow> real \<Rightarrow> real \<Rightarrow> real \<times> real \<Rightarrow> real \<times> real" where
  "rectify_point_by_axis xp yp Xr Yr F p =
     (let X = fst p - Xr / 2;
          Y = snd p - Yr / 2
      in ((X + poly12 xp (spec_terms X Y)) / F, (Y + poly12 yp (terms_y_axis X Y)) / F))"

section \<open>Field correction: the loop as a map\<close>

lemma applyFieldCorrection_loop_map:
  assumes "12 \<le> length xp" "12 \<le> length yp"
    and "length XC = i + length ps" "length YC = i + length ps"
  shows "applyFieldCorrection_loop xp yp Xr Yr F ps i XC YC =
           Inr (take i XC @ map (\<lambda>p. fst (applyFieldCorrection_point xp yp Xr Yr F p)) ps,
                take i YC @ map (\<lambda>p. snd (applyFieldCorrection_point xp yp Xr Yr F p)) ps)"
  using assms(3,4)
proof (induction ps arbitrary: i XC YC)
  case Nil
  then show ?case by simp
next
  case (Cons p ps)
  let ?q = "applyFieldCorrection_point xp yp Xr Yr F p"
  have len: "length (XC[i := fst ?q]) = Suc i + length ps"
            "length (YC[i := snd ?q]) = Suc i + length ps"
    using Cons.prems by simp_all
  have tk: "take (Suc i) (XC[i := fst ?q]) = take i XC @ [fst ?q]"
           "take (Suc i) (YC[i := snd ?q]) = take i YC @ [snd ?q]"
    using Cons.prems by (simp_all add: take_Suc_conv_app_nth)
  show ?case
    using assms(1,2) Cons.IH[OF len] tk by (simp add: Let_def)
qed

lemma applyFieldCorrection_map:
  assumes "12 \<le> length xp" "12 \<le> length yp" "length X_data = length Y_data"
  shows "applyFieldCorrection xp yp Xr Yr F X_data Y_data =
           Inr (map (\<lambda>p. fst (applyFieldCorrection_point xp yp Xr Yr F p)) (zip X_data Y_data),
                map (\<lambda>p. snd (applyFieldCorrection_point xp yp Xr Yr F p)) (zip X_data Y_data))"
  using assms applyFieldCorrection_loop_map[of xp yp "replicate (length X_data) 0" 0
      "zip X_data Y_data" "replicate (length Y_data) 0" Xr Yr F]
  by (simp add: applyFieldCorrection_def)

lemma applyFieldCorrection_IndexError:
  assumes "length xp < 12 \<or> length yp < 12" "length X_data = length Y_data" "X_data \<noteq> []"
  shows "applyFieldCorrection xp yp Xr Yr F X_data Y_data = Inl IndexError"
proof -
  obtain x xs y ys where "X_data = x # xs" "Y_data = y # ys"
    using assms(2,3) by (cases X_data; cases Y_data) auto
  then show ?thesis using assms(1,2) by (auto simp: applyFieldCorrection_def)
qed

section \<open>Arithmetic of the primitives\<close>

lemma pymod_bounds:
  assumes "0 < m"
  shows "0 \<le> pymod x m" "pymod x m < m"
proof -
  have "of_int \<lfloor>x / m\<rfloor> \<le> x / m" by (rule of_int_floor_le)
  then have "m * of_int \<lfloor>x / m\<rfloor> \<le> m * (x / m)"
    using assms by (intro mult_left_mono) simp_all
  then have "m * of_int \<lfloor>x / m\<rfloor> \<le> x"
    using assms by simp
  then show "0 \<le> pymod x m" by (simp add: pymod_def)
  have "x / m < of_int \<lfloor>x / m\<rfloor> + 1" by linarith
  then have "m * (x / m) < m * (of_int \<lfloor>x / m\<rfloor> + 1)"
    using assms by (intro mult_strict_left_mono) simp_all
  then have "x < m * (of_int \<lfloor>x / m\<rfloor> + 1)"
    using assms by simp
  then show "pymod x m < m" by (simp add: pymod_def algebra_simps)
qed

lemma pymod_id:
  assumes "0 \<le> x" "x < m"
  shows "pymod x m = x"
proof -
  have "0 \<le> x / m" "x / m < 1" using assms by simp_all
  then have "\<lfloor>x / m\<rfloor> = 0" by (simp add: floor_eq_iff)
  then show ?thesis by (simp add: pymod_def)
qed

lemma arctan2_bounds: "- pi < arctan2 y x" "arctan2 y x \<le> pi"
proof -
  have b: "- (pi / 2) < arctan (y / x)" "arctan (y / x) < pi / 2"
    by (rule arctan_lbound, rule arctan_ubound)
  have nz: "arctan (y / x) \<le> 0" if "0 \<le> y" "x < 0"
  proof -
    have "y / x \<le> 0" using that by (simp add: divide_nonneg_neg)
    then show ?thesis by simp
  qed
  have pz: "0 < arctan (y / x)" if "y < 0" "x < 0"
  proof -
    have "0 < y / x" using that by (simp add: divide_neg_neg)
    then show ?thesis by simp
  qed
  consider "0 < x" | "x < 0" "0 \<le> y" | "x < 0" "y < 0" | "x = 0" "0 < y" | "x = 0" "y < 0"
    | "x = 0" "y = 0"
    by linarith
  then show "- pi < arctan2 y x"
  proof cases
    case 1 then show ?thesis using b pi_gt_zero by (simp add: arctan2_def)
  next
    case 2 then show ?thesis using b pi_gt_zero by (simp add: arctan2_def)
  next
    case 3 then show ?thesis using pz pi_gt_zero by (simp add: arctan2_def)
  next
    case 4 then show ?thesis using pi_gt_zero by (simp add: arctan2_def)
  next
    case 5 then show ?thesis using pi_gt_zero by (simp add: arctan2_def)
  next
    case 6 then show ?thesis using pi_gt_zero by (simp add: arctan2_def)
  qed
  consider "0 < x" | "x < 0" "0 \<le> y" | "x < 0" "y < 0" | "x = 0" "0 < y" | "x = 0" "y < 0"
    | "x = 0" "y = 0"
    by linarith
  then show "arctan2 y x \<le> pi"
  proof cases
    case 1 then show ?thesis using b pi_gt_zero by (simp add: arctan2_def)
  next
    case 2 then show ?thesis using nz pi_gt_zero by (simp add: arctan2_def)
  next
    case 3 then show ?thesis using b pi_gt_zero by (simp add: arctan2_def)
  next
    case 4 then show ?thesis using pi_gt_zero by (simp add: arctan2_def)
  next
    case 5
    have "- (pi / 2) \<le> pi" using pi_gt_zero by linarith
    with 5 show ?thesis by (simp add: arctan2_def)
  next
    case 6 then show ?thesis using pi_gt_zero by (simp add: arctan2_def)
  qed
qed

lemma degrees_mono: "a \<le> b \<Longrightarrow> degrees a \<le> degrees b"
  by (simp add: degrees_def divide_right_mono)

lemma degrees_strict_mono: "a < b \<Longrightarrow> degrees a < degrees b"
  by (simp add: degrees_def divide_strict_right_mono)

lemma degrees_values:
  "degrees pi = 180" "degrees (2 * pi) = 360" "degrees (pi / 2) = 90"
  "degrees (- (pi / 2)) = - 90" "degrees 0 = 0"
  by (simp_all add: degrees_def)

lemma radians_values: "radians 45 = pi / 4" "radians 0 = 0"
  by (simp_all add: radians_def)

lemma sqrt_25: "sqrt 25 = 5"
  using real_sqrt_abs[of 5] by simp

lemma sum_lessThan_12:
  fixes f :: "nat \<Rightarrow> real"
  shows "(\<Sum>k<12. f k) = f 0 + f 1 + f 2 + f 3 + f 4 + f 5 + f 6 + f 7 + f 8 + f 9 + f 10 + f 11"
  by (simp add: eval_nat_numeral lessThan_Suc)

section \<open>The rectification against the specification's polynomial\<close>

lemma dX_fwd_poly12: "dX_fwd c X Y = poly12 c (spec_terms X Y)"
  by (simp add: dX_fwd_def poly12_def spec_terms_def sum_lessThan_12 Let_def eval_nat_numeral)

lemma dY_fwd_poly12: "dY_fwd c X Y = poly12 c (terms_y_axis X Y)"
  by (simp add: dY_fwd_def poly12_def terms_y_axis_def sum_lessThan_12 Let_def eval_nat_numeral)

lemma applyFieldCorrection_point_by_axis:
  "applyFieldCorrection_point xp yp Xr Yr F p = rectify_point_by_axis xp yp Xr Yr F p"
  by (simp add: applyFieldCorrection_point_def rectify_point_by_axis_def Let_def
        dX_fwd_poly12 dY_fwd_poly12)

text \<open>
  Claim C1, as the code has it. For coefficient lists of at least twelve entries, coordinate
  arrays of equal length and a non-zero image scale, \<open>applyFieldCorrection\<close> returns, for
  every input point, the centred coordinate plus the twelve-term polynomial, divided by
  \<open>F_scale\<close>. The X axis pairs its coefficients with the terms in the specification's
  order. The Y axis does so for the first ten terms, and pairs coefficient 10 with \<open>Y r\<close>
  and coefficient 11 with \<open>X r\<close>.
\<close>

theorem applyFieldCorrection_rectifies_by_axis:
  assumes "12 \<le> length xp" "12 \<le> length yp" "length X_data = length Y_data" "F \<noteq> 0"
  shows "applyFieldCorrection xp yp Xr Yr F X_data Y_data =
           Inr (map (\<lambda>p. fst (rectify_point_by_axis xp yp Xr Yr F p)) (zip X_data Y_data),
                map (\<lambda>p. snd (rectify_point_by_axis xp yp Xr Yr F p)) (zip X_data Y_data))"
  using applyFieldCorrection_map[OF assms(1,2,3)]
  by (simp add: applyFieldCorrection_point_by_axis)

theorem applyFieldCorrection_rectifies_by_axis_witness:
  "applyFieldCorrection (replicate 12 0) ((replicate 12 0)[10 := 1]) 2 2 1 [4] [5]
     = Inr ([3], [24])"
  using applyFieldCorrection_rectifies_by_axis[of "replicate 12 0" "(replicate 12 0)[10 := 1]"
      "[4]" "[5]" 1 2 2]
  by (simp add: rectify_point_by_axis_def poly12_def spec_terms_def terms_y_axis_def
        sum_lessThan_12 Let_def sqrt_25 nth_list_update)

text \<open>
  Claim C1 as stated fails. With every coefficient zero but \<open>y_poly_fwd[10] = 1\<close>, a 2 by 2
  image, scale 1 and the pixel \<open>(4, 5)\<close> (centred: \<open>(3, 4)\<close>, \<open>r = 5\<close>), the code returns
  \<open>Y = 4 + 4 * 5 = 24\<close>, and the polynomial in the specification's order gives
  \<open>Y = 4 + 3 * 5 = 19\<close>.
\<close>

theorem applyFieldCorrection_spec_order_counterexample:
  "applyFieldCorrection (replicate 12 0) ((replicate 12 0)[10 := 1]) 2 2 1 [4] [5]
     = Inr ([3], [24])
   \<and> spec_rectify_point (replicate 12 0) ((replicate 12 0)[10 := 1]) 2 2 1 (4, 5) = (3, 19)"
  by (simp add: applyFieldCorrection_def applyFieldCorrection_point_def dX_fwd_def dY_fwd_def
        spec_rectify_point_def poly12_def spec_terms_def sum_lessThan_12 Let_def sqrt_25
        nth_list_update)

section \<open>Bulk and single-point field correction\<close>

text \<open>
  Claim C9. For coordinate arrays of equal length \<open>n\<close> (coefficient lists of at least
  twelve entries, non-zero scale), \<open>applyFieldCorrection\<close> returns two arrays of length
  \<open>n\<close>, and for every \<open>i < n\<close> the call on the one-element arrays holding the \<open>i\<close>-th point
  returns the one-element arrays holding the \<open>i\<close>-th entries of the bulk result.
\<close>

theorem applyFieldCorrection_bulk_is_pointwise:
  assumes "length X_data = length Y_data" "12 \<le> length xp" "12 \<le> length yp" "F \<noteq> 0"
  shows "\<exists>XC YC. applyFieldCorrection xp yp Xr Yr F X_data Y_data = Inr (XC, YC)
           \<and> length XC = length X_data \<and> length YC = length X_data
           \<and> (\<forall>i<length X_data.
                 applyFieldCorrection xp yp Xr Yr F [X_data ! i] [Y_data ! i]
                   = Inr ([XC ! i], [YC ! i]))"
proof -
  let ?g = "applyFieldCorrection_point xp yp Xr Yr F"
  let ?XC = "map (\<lambda>p. fst (?g p)) (zip X_data Y_data)"
  let ?YC = "map (\<lambda>p. snd (?g p)) (zip X_data Y_data)"
  have bulk: "applyFieldCorrection xp yp Xr Yr F X_data Y_data = Inr (?XC, ?YC)"
    using assms by (rule_tac applyFieldCorrection_map) simp_all
  have one: "applyFieldCorrection xp yp Xr Yr F [X_data ! i] [Y_data ! i]
               = Inr ([?XC ! i], [?YC ! i])"
    if "i < length X_data" for i
    using that assms applyFieldCorrection_map[of xp yp "[X_data ! i]" "[Y_data ! i]" Xr Yr F]
    by simp
  show ?thesis using bulk one assms(1) by simp
qed

theorem applyFieldCorrection_bulk_is_pointwise_witness:
  "\<exists>XC YC. applyFieldCorrection (replicate 12 0) (replicate 12 0) 2 2 1 [1, 4] [1, 5]
              = Inr (XC, YC)
     \<and> applyFieldCorrection (replicate 12 0) (replicate 12 0) 2 2 1 [4] [5]
              = Inr ([XC ! 1], [YC ! 1])"
  using applyFieldCorrection_bulk_is_pointwise[of "[1, 4]" "[1, 5]" "replicate 12 0"
      "replicate 12 0" 1 2 2]
  by auto

section \<open>Ranges of the equatorial-to-horizontal conversion\<close>


lemma raDec2AltAz_altitude_wrap:
  "snd (raDec2AltAz JD' lon' lat' ra dec)
     = degrees (arcsin (pymod (raDec2AltAz_sin_elev JD' lon' lat' ra dec + 1) 2 - 1))"
  by (simp add: raDec2AltAz_def raDec2AltAz_sin_elev_def raDec2AltAz_ha_def Let_def)






lemma raDec2AltAz_ha_epoch: "raDec2AltAz_ha 2451545 0 (28046061837 / 100000000) = 0"
proof -
  have m1: "pymod (28046061837 / 100000000) 360 = 28046061837 / 100000000"
    by (rule pymod_id) simp_all
  have m2: "pymod pi (2 * pi) = pi"
    by (rule pymod_id) (simp_all add: pi_gt_zero)
  show ?thesis by (simp add: raDec2AltAz_ha_def Let_def m1 m2)
qed





text \<open>
  The input left out. For an observer at latitude 45 a point of declination 45 and hour
  angle 0 is at the zenith, and its sine of elevation is 1. The code wraps that value,
  \<open>(1 + 1) % 2 - 1 = -1\<close>, where clamping it to the range from -1 to 1 would keep 1, and
  the altitude returned is -90 degrees.
\<close>

lemma raDec2AltAz_zenith:
  "raDec2AltAz_sin_elev 2451545 0 45 (28046061837 / 100000000) 45 = 1"
  "snd (raDec2AltAz 2451545 0 45 (28046061837 / 100000000) 45) = - 90"
proof -
  have h: "(sqrt 2 / 2) * (sqrt 2 / 2) = (1 / 2 :: real)" by simp
  show s: "raDec2AltAz_sin_elev 2451545 0 45 (28046061837 / 100000000) 45 = 1"
    by (simp add: raDec2AltAz_sin_elev_def raDec2AltAz_ha_epoch radians_values sin_45 cos_45 h)
  have "pymod (2 :: real) 2 = 0" by (simp add: pymod_def)
  then show "snd (raDec2AltAz 2451545 0 45 (28046061837 / 100000000) 45) = - 90"
    unfolding raDec2AltAz_altitude_wrap s by (simp add: degrees_def)
qed

section \<open>The other loops as maps\<close>

lemma XY2altAz_loop_map:
  assumes "length A = i + length ps" "length B = i + length ps"
  shows "XY2altAz_loop la lo ra de ho pa ps i A B =
           (take i A @ map (\<lambda>p. fst (XY2altAz_point la lo ra de ho pa p)) ps,
            take i B @ map (\<lambda>p. snd (XY2altAz_point la lo ra de ho pa p)) ps)"
  using assms
proof (induction ps arbitrary: i A B)
  case Nil
  then show ?case by simp
next
  case (Cons p ps)
  let ?q = "XY2altAz_point la lo ra de ho pa p"
  have len: "length (A[i := fst ?q]) = Suc i + length ps"
            "length (B[i := snd ?q]) = Suc i + length ps"
    using Cons.prems by simp_all
  have tk: "take (Suc i) (A[i := fst ?q]) = take i A @ [fst ?q]"
           "take (Suc i) (B[i := snd ?q]) = take i B @ [snd ?q]"
    using Cons.prems by (simp_all add: take_Suc_conv_app_nth)
  show ?case
    using Cons.IH[OF len] tk by (simp add: Let_def)
qed

lemma XY2altAz_map:
  assumes "12 \<le> length xp" "12 \<le> length yp" "length X_data = length Y_data"
  shows "XY2altAz X_data Y_data la lo ra de ho Xr Yr pa F xp yp =
           Inr (map (\<lambda>p. fst (XY2altAz_point la lo ra de ho pa
                                 (applyFieldCorrection_point xp yp Xr Yr F p))) (zip X_data Y_data),
                map (\<lambda>p. snd (XY2altAz_point la lo ra de ho pa
                                 (applyFieldCorrection_point xp yp Xr Yr F p))) (zip X_data Y_data))"
proof -
  let ?g = "applyFieldCorrection_point xp yp Xr Yr F"
  let ?XC = "map (\<lambda>p. fst (?g p)) (zip X_data Y_data)"
  let ?YC = "map (\<lambda>p. snd (?g p)) (zip X_data Y_data)"
  have z: "zip ?XC ?YC = map ?g (zip X_data Y_data)"
    by (simp add: zip_map_map zip_same_conv_map)
  have "XY2altAz_loop la lo ra de ho pa (zip ?XC ?YC) 0
          (replicate (length ?XC) 0) (replicate (length ?XC) 0)
        = (map (\<lambda>p. fst (XY2altAz_point la lo ra de ho pa p)) (zip ?XC ?YC),
           map (\<lambda>p. snd (XY2altAz_point la lo ra de ho pa p)) (zip ?XC ?YC))"
    using XY2altAz_loop_map[of "replicate (length ?XC) 0" 0 "zip ?XC ?YC"
        "replicate (length ?XC) 0" la lo ra de ho pa]
    by simp
  then show ?thesis
    using applyFieldCorrection_map[OF assms, of Xr Yr F]
    by (simp add: XY2altAz_def z comp_def)
qed

lemma XY2altAz_short_poly:
  assumes "length xp < 12 \<or> length yp < 12" "length X_data = length Y_data" "X_data \<noteq> []"
  shows "XY2altAz X_data Y_data la lo ra de ho Xr Yr pa F xp yp = Inl IndexError"
  using applyFieldCorrection_IndexError[OF assms, of Xr Yr F] by (simp add: XY2altAz_def)

lemma calculateMagnitudes_loop_map:
  assumes "length M = i + length ls"
  shows "calculateMagnitudes_loop m0 ml ls i M
           = take i M @ map (\<lambda>l. np_plus (np_times m0 (np_log10 l)) ml) ls"
  using assms
proof (induction ls arbitrary: i M)
  case Nil
  then show ?case by simp
next
  case (Cons l ls)
  let ?v = "np_plus (np_times m0 (np_log10 l)) ml"
  have "length (M[i := ?v]) = Suc i + length ls" using Cons.prems by simp
  moreover have "take (Suc i) (M[i := ?v]) = take i M @ [?v]"
    using Cons.prems by (simp add: take_Suc_conv_app_nth)
  ultimately show ?case using Cons.IH[of "M[i := ?v]" "Suc i"] by simp
qed

lemma calculateMagnitudes_map:
  "calculateMagnitudes ls m0 ml = map (\<lambda>l. np_plus (np_times m0 (np_log10 l)) ml) ls"
  using calculateMagnitudes_loop_map[of "replicate (length ls) (Finite 0)" 0 ls m0 ml]
  by (simp add: calculateMagnitudes_def)

lemma altAz2RADec_loop_map:
  assumes "length J = i + length ps" "length R = i + length ps" "length D = i + length ps"
    and "i + length ps \<le> length td"
    and "\<forall>k<length ps. (if dt then datetime2JD ext (td ! (i + k)) (- UT)
                          else date2JD ext (td ! (i + k)) (- UT)) = Inr (g (i + k))"
  shows "altAz2RADec_loop ext sl cl lo UT td dt ps i J R D =
           Inr (take i J @ map g [i..<i + length ps],
                take i R @ map (\<lambda>k. fst (altAz2RADec_point sl cl lo (g k) (fst (ps ! (k - i)))
                                           (snd (ps ! (k - i))))) [i..<i + length ps],
                take i D @ map (\<lambda>k. snd (altAz2RADec_point sl cl lo (g k) (fst (ps ! (k - i)))
                                           (snd (ps ! (k - i))))) [i..<i + length ps])"
  using assms
proof (induction ps arbitrary: i J R D)
  case Nil
  then show ?case by simp
next
  case (Cons p ps)
  let ?q = "altAz2RADec_point sl cl lo (g i) (fst p) (snd p)"
  have conv: "(if dt then datetime2JD ext (td ! i) (- UT) else date2JD ext (td ! i) (- UT))
                = Inr (g i)"
    using Cons.prems(5) by force
  have rest: "\<forall>k<length ps. (if dt then datetime2JD ext (td ! (Suc i + k)) (- UT)
                               else date2JD ext (td ! (Suc i + k)) (- UT)) = Inr (g (Suc i + k))"
  proof (intro allI impI)
    fix k assume "k < length ps"
    then have "Suc k < length (p # ps)" by simp
    then show "(if dt then datetime2JD ext (td ! (Suc i + k)) (- UT)
                else date2JD ext (td ! (Suc i + k)) (- UT)) = Inr (g (Suc i + k))"
      using Cons.prems(5)[rule_format, of "Suc k"] by (auto split: if_splits)
  qed
  have IH: "altAz2RADec_loop ext sl cl lo UT td dt ps (Suc i) (J[i := g i]) (R[i := fst ?q])
              (D[i := snd ?q]) =
           Inr (take (Suc i) (J[i := g i]) @ map g [Suc i..<Suc i + length ps],
                take (Suc i) (R[i := fst ?q])
                  @ map (\<lambda>k. fst (altAz2RADec_point sl cl lo (g k) (fst (ps ! (k - Suc i)))
                                     (snd (ps ! (k - Suc i))))) [Suc i..<Suc i + length ps],
                take (Suc i) (D[i := snd ?q])
                  @ map (\<lambda>k. snd (altAz2RADec_point sl cl lo (g k) (fst (ps ! (k - Suc i)))
                                     (snd (ps ! (k - Suc i))))) [Suc i..<Suc i + length ps])"
    using Cons.prems(1-4) by (intro Cons.IH rest) simp_all
  have tk: "take (Suc i) (J[i := g i]) = take i J @ [g i]"
           "take (Suc i) (R[i := fst ?q]) = take i R @ [fst ?q]"
           "take (Suc i) (D[i := snd ?q]) = take i D @ [snd ?q]"
    using Cons.prems(1-3) by (simp_all add: take_Suc_conv_app_nth)
  have up: "[i..<i + length (p # ps)] = i # [Suc i..<Suc i + length ps]"
  proof -
    have "i < i + length (p # ps)" by simp
    from upt_conv_Cons[OF this] show ?thesis by (simp del: upt_Suc)
  qed
  have shift: "map (\<lambda>k. f (altAz2RADec_point sl cl lo (g k) (fst ((p # ps) ! (k - i)))
                              (snd ((p # ps) ! (k - i))))) [Suc i..<Suc i + length ps]
             = map (\<lambda>k. f (altAz2RADec_point sl cl lo (g k) (fst (ps ! (k - Suc i)))
                              (snd (ps ! (k - Suc i))))) [Suc i..<Suc i + length ps]"
    for f :: "real \<times> real \<Rightarrow> real"
  proof (rule map_cong[OF refl])
    fix k assume "k \<in> set [Suc i..<Suc i + length ps]"
    then have "Suc i \<le> k" by (simp del: upt_Suc)
    then have "k - i = Suc (k - Suc i)" by arith
    then show "f (altAz2RADec_point sl cl lo (g k) (fst ((p # ps) ! (k - i)))
                   (snd ((p # ps) ! (k - i))))
             = f (altAz2RADec_point sl cl lo (g k) (fst (ps ! (k - Suc i)))
                   (snd (ps ! (k - Suc i))))"
      by simp
  qed
  have lt: "\<not> length td \<le> i" using Cons.prems(4) by simp
  show ?case
    using conv by (simp only: altAz2RADec_loop.simps lt if_False sum.case Let_def IH tk up
        list.map shift nth_Cons_0 diff_self_eq_0 append_assoc append_Cons append_Nil)
qed

section \<open>When the rotation functions and the pixel-to-sky step return\<close>

lemma rotationWrtHorizon_returns:
  assumes "12 \<le> length (x_poly_fwd pp)" "12 \<le> length (y_poly_fwd pp)"
  shows "\<exists>r. rotationWrtHorizon pp = Inr r"
  using assms by (simp add: rotationWrtHorizon_def Let_def XY2altAz_map)

lemma cyXYToRADec_py_returns:
  assumes "12 \<le> length xp" "12 \<le> length yp" "length X = length Y" "length X \<le> length J"
  shows "\<exists>R D. cyXYToRADec_py J X Y la lo ho Xr Yr ra de pa F xp yp = Inr (R, D)
               \<and> length R = length X \<and> length D = length X"
  using assms by (simp add: cyXYToRADec_py_def Let_def XY2altAz_map)

lemma rotationWrtStandard_sample_returns:
  "\<exists>r. rotationWrtStandard sample_externals (sample_platepar\<lparr>pos_angle_ref := q\<rparr>) = Inr r"
proof -
  obtain R D where rd: "cyXYToRADec_py [2451545, 2451545] [640, 650] [360, 360] 45 15 30 1280 720 120 40 q 16
       (replicate 12 0) (replicate 12 0) = Inr (R, D)" "length R = 2" "length D = 2"
    using cyXYToRADec_py_returns[of "replicate 12 0" "replicate 12 0" "[640, 650]" "[360, 360]"
        "[2451545, 2451545]" 45 15 30 1280 720 120 40 q 16]
    by auto
  then show ?thesis
    by (simp add: rotationWrtStandard_def XY2CorrectedRADecPP_def XY2CorrectedRADec_def
        sample_externals_def sample_platepar_def Let_def eval_nat_numeral)
qed

lemma XY2CorrectedRADec_sample_returns:
  assumes "length X = length Y" "length X = length td"
  shows "\<exists>R D. XY2CorrectedRADec sample_externals td X Y lv la lo ho xr yr ra de pa F m0 ml
                 (replicate 12 0) (replicate 12 0) ht
               = Inr (td, R, D, calculateMagnitudes lv m0 ml)"
proof -
  have j: "date2JD_all sample_externals ts = Inr ts" for ts
    by (induction ts) (simp_all add: sample_externals_def)
  obtain R D where "cyXYToRADec_py td X Y la lo ho (of_int xr) (of_int yr) ra de pa F
      (replicate 12 0) (replicate 12 0) = Inr (R, D)"
    using cyXYToRADec_py_returns[where xp = "replicate 12 0" and yp = "replicate 12 0"
        and X = X and Y = Y and J = td and la = la and lo = lo and ho = ho and Xr = "of_int xr"
        and Yr = "of_int yr" and ra = ra and de = de and pa = pa and F = F] assms
    by auto
  then show ?thesis
    by (simp add: XY2CorrectedRADec_def j) (simp add: sample_externals_def)
qed

section \<open>The residual of the position-angle solvers\<close>

lemma pymod_cong_iff:
  assumes "0 < m"
  shows "pymod x m = pymod y m \<longleftrightarrow> (\<exists>k::int. x - y = m * of_int k)"
proof
  assume "pymod x m = pymod y m"
  then have "x - y = m * of_int (\<lfloor>x / m\<rfloor> - \<lfloor>y / m\<rfloor>)"
    by (simp add: pymod_def algebra_simps)
  then show "\<exists>k::int. x - y = m * of_int k" by blast
next
  assume "\<exists>k::int. x - y = m * of_int k"
  then obtain k :: int where k: "x - y = m * of_int k" by blast
  then have "x = y + m * of_int k" by simp
  then have "x / m = y / m + of_int k"
    using assms by (simp add: field_simps)
  then have "\<lfloor>x / m\<rfloor> = \<lfloor>y / m\<rfloor> + k" by simp
  then show "pymod x m = pymod y m"
    using k by (simp add: pymod_def algebra_simps)
qed

lemma rotAngleDeviation_zero_iff:
  assumes "0 \<le> t" "t < 360" "0 \<le> c" "c < 360"
  shows "rotAngleDeviation t c = 0 \<longleftrightarrow> t = c"
  using assms unfolding rotAngleDeviation_def by linarith

lemma rotAngleDeviation_pymod_zero_iff:
  "rotAngleDeviation (pymod target 360) (pymod r 360) = 0
     \<longleftrightarrow> (\<exists>k::int. target - r = 360 * of_int k)"
proof -
  have "rotAngleDeviation (pymod target 360) (pymod r 360) = 0
          \<longleftrightarrow> pymod target 360 = pymod r 360"
    using pymod_bounds[of 360 target] pymod_bounds[of 360 r]
    by (intro rotAngleDeviation_zero_iff) simp_all
  then show ?thesis using pymod_cong_iff[of 360 target r] by simp
qed

text \<open>
  Claim C3. The closure \<open>_rotAngleResidual\<close> of either solver, called with the target
  rotation reduced modulo 360 (as the solver passes it) and a position angle \<open>p\<close>, raises
  what the rotation function raises for the platepar with position angle \<open>p\<close>; otherwise
  it returns a residual that is zero if and only if the target and the rotation computed
  at \<open>p\<close> differ by an integer multiple of 360 degrees. \<open>b\<close> is the address of the
  solver's copy of the platepar.
\<close>

theorem rotAngleResidual_zero_iff_coincide:
  assumes "b < length h"
  shows "(case rotationWrtHorizon ((h ! b)\<lparr>pos_angle_ref := p\<rparr>) of
            Inl e \<Rightarrow> fst (rotAngleResidual_horizon b (pymod target 360) p h) = Inl e
          | Inr r \<Rightarrow> \<exists>d. fst (rotAngleResidual_horizon b (pymod target 360) p h) = Inr d
                        \<and> (d = 0 \<longleftrightarrow> (\<exists>k::int. target - r = 360 * of_int k)))
       \<and> (case rotationWrtStandard ext ((h ! b)\<lparr>pos_angle_ref := p\<rparr>) of
            Inl e \<Rightarrow> fst (rotAngleResidual_standard ext b (pymod target 360) p h) = Inl e
          | Inr r \<Rightarrow> \<exists>d. fst (rotAngleResidual_standard ext b (pymod target 360) p h) = Inr d
                        \<and> (d = 0 \<longleftrightarrow> (\<exists>k::int. target - r = 360 * of_int k)))"
  using assms
  by (simp add: rotAngleResidual_horizon_def rotAngleResidual_standard_def Let_def
        rotAngleDeviation_pymod_zero_iff split: sum.splits)

theorem rotAngleResidual_zero_iff_coincide_witness:
  "\<exists>r d. rotationWrtHorizon (sample_platepar\<lparr>pos_angle_ref := 7\<rparr>) = Inr r
         \<and> fst (rotAngleResidual_horizon 0 (pymod 400 360) 7 [sample_platepar]) = Inr d
         \<and> (d = 0 \<longleftrightarrow> (\<exists>k::int. 400 - r = 360 * of_int k))"
proof -
  obtain r where r: "rotationWrtHorizon (sample_platepar\<lparr>pos_angle_ref := 7\<rparr>) = Inr r"
    using rotationWrtHorizon_returns[of "sample_platepar\<lparr>pos_angle_ref := 7\<rparr>"]
    by (auto simp: sample_platepar_def)
  show ?thesis
    using rotAngleResidual_zero_iff_coincide[where b = 0 and h = "[sample_platepar]" and p = 7 and target = 400
        and ext = sample_externals] r
    by simp
qed

section \<open>The solvers and the caller's platepar\<close>

lemma residual_horizon_frame:
  assumes "n \<le> b"
  shows "take n (snd (rotAngleResidual_horizon b rot p h)) = take n h"
  using assms by (simp add: rotAngleResidual_horizon_def Let_def split: sum.splits)

lemma residual_horizon_length:
  "length (snd (rotAngleResidual_horizon b rot p h)) = length h"
  by (simp add: rotAngleResidual_horizon_def Let_def split: sum.splits)

lemma residual_standard_frame:
  assumes "n \<le> b"
  shows "take n (snd (rotAngleResidual_standard ext b rot p h)) = take n h"
  using assms by (simp add: rotAngleResidual_standard_def Let_def split: sum.splits)

lemma residual_standard_length:
  "length (snd (rotAngleResidual_standard ext b rot p h)) = length h"
  by (simp add: rotAngleResidual_standard_def Let_def split: sum.splits)

lemma minimize_loop_frame:
  assumes "\<And>p h. take n (snd (f p h)) = take n h"
  shows "take n (snd (minimize_loop nm k f x0 hist h)) = take n h"
proof (induction k arbitrary: hist h)
  case 0
  show ?case by simp
next
  case (Suc k)
  show ?case
  proof (cases "next_step nm x0 hist")
    case (Stop x)
    then show ?thesis by simp
  next
    case (Probe q)
    obtain res h' where f: "f q h = (res, h')" by (cases "f q h")
    have fr: "take n h' = take n h" using assms[of q h] f by simp
    show ?thesis
    proof (cases res)
      case (Inl e)
      then show ?thesis using Probe f fr by simp
    next
      case (Inr v)
      then show ?thesis using Probe f fr Suc.IH[of "hist @ [(q, v)]" h'] by simp
    qed
  qed
qed

lemma minimize_loop_length:
  assumes "\<And>p h. length (snd (f p h)) = length h"
  shows "length (snd (minimize_loop nm k f x0 hist h)) = length h"
proof (induction k arbitrary: hist h)
  case 0
  show ?case by simp
next
  case (Suc k)
  show ?case
  proof (cases "next_step nm x0 hist")
    case (Stop x)
    then show ?thesis by simp
  next
    case (Probe q)
    obtain res h' where f: "f q h = (res, h')" by (cases "f q h")
    have fr: "length h' = length h" using assms[of q h] f by simp
    show ?thesis
    proof (cases res)
      case (Inl e)
      then show ?thesis using Probe f fr by simp
    next
      case (Inr v)
      then show ?thesis using Probe f fr Suc.IH[of "hist @ [(q, v)]" h'] by simp
    qed
  qed
qed

lemma solver_horizon_heap:
  "take (length h) (snd (rotationWrtHorizonToPosAngle nm h a rot)) = h"
  "length (snd (rotationWrtHorizonToPosAngle nm h a rot)) = Suc (length h)"
proof -
  let ?f = "rotAngleResidual_horizon (length h) (pymod rot 360)"
  let ?m = "minimize nm ?f (pos_angle_ref ((h @ [h ! a]) ! length h)) (h @ [h ! a])"
  have s: "snd (rotationWrtHorizonToPosAngle nm h a rot) = snd ?m"
    by (simp add: rotationWrtHorizonToPosAngle_def deepcopy_def Let_def split: prod.splits)
  have "take (length h) (snd ?m) = take (length h) (h @ [h ! a])"
    unfolding minimize_def
    by (rule minimize_loop_frame) (simp add: residual_horizon_frame)
  then show "take (length h) (snd (rotationWrtHorizonToPosAngle nm h a rot)) = h"
    using s by simp
  have "length (snd ?m) = length (h @ [h ! a])"
    unfolding minimize_def
    by (rule minimize_loop_length) (simp add: residual_horizon_length)
  then show "length (snd (rotationWrtHorizonToPosAngle nm h a rot)) = Suc (length h)"
    using s by simp
qed

lemma solver_standard_heap:
  "take (length h) (snd (rotationWrtStandardToPosAngle ext nm h a rot)) = h"
  "length (snd (rotationWrtStandardToPosAngle ext nm h a rot)) = Suc (length h)"
proof -
  let ?f = "rotAngleResidual_standard ext (length h) (pymod rot 360)"
  let ?m = "minimize nm ?f (pos_angle_ref ((h @ [h ! a]) ! length h)) (h @ [h ! a])"
  have s: "snd (rotationWrtStandardToPosAngle ext nm h a rot) = snd ?m"
    by (simp add: rotationWrtStandardToPosAngle_def deepcopy_def Let_def split: prod.splits)
  have "take (length h) (snd ?m) = take (length h) (h @ [h ! a])"
    unfolding minimize_def
    by (rule minimize_loop_frame) (simp add: residual_standard_frame)
  then show "take (length h) (snd (rotationWrtStandardToPosAngle ext nm h a rot)) = h"
    using s by simp
  have "length (snd ?m) = length (h @ [h ! a])"
    unfolding minimize_def
    by (rule minimize_loop_length) (simp add: residual_standard_length)
  then show "length (snd (rotationWrtStandardToPosAngle ext nm h a rot)) = Suc (length h)"
    using s by simp
qed

text \<open>
  Claim C4. For every heap \<open>h\<close>, every platepar address \<open>a\<close> in it, every target rotation
  and every search rule, after \<open>rotationWrtHorizonToPosAngle\<close> and after
  \<open>rotationWrtStandardToPosAngle\<close> the object at \<open>a\<close> is the object that was there before,
  \<open>pos_angle_ref\<close> included, also when the search ends in an exception; all of the
  caller's heap is as before, and the writes went to the one cell the solver allocated.
\<close>

theorem solvers_leave_caller_platepar:
  assumes "a < length h"
  shows "snd (rotationWrtHorizonToPosAngle nm h a rot) ! a = h ! a
       \<and> pos_angle_ref (snd (rotationWrtHorizonToPosAngle nm h a rot) ! a) = pos_angle_ref (h ! a)
       \<and> take (length h) (snd (rotationWrtHorizonToPosAngle nm h a rot)) = h
       \<and> snd (rotationWrtStandardToPosAngle ext nm h a rot) ! a = h ! a
       \<and> pos_angle_ref (snd (rotationWrtStandardToPosAngle ext nm h a rot) ! a) = pos_angle_ref (h ! a)
       \<and> take (length h) (snd (rotationWrtStandardToPosAngle ext nm h a rot)) = h"
proof -
  have "snd (rotationWrtHorizonToPosAngle nm h a rot) ! a
          = take (length h) (snd (rotationWrtHorizonToPosAngle nm h a rot)) ! a"
    using assms by simp
  then have 1: "snd (rotationWrtHorizonToPosAngle nm h a rot) ! a = h ! a"
    by (simp only: solver_horizon_heap)
  have "snd (rotationWrtStandardToPosAngle ext nm h a rot) ! a
          = take (length h) (snd (rotationWrtStandardToPosAngle ext nm h a rot)) ! a"
    using assms by simp
  then have 2: "snd (rotationWrtStandardToPosAngle ext nm h a rot) ! a = h ! a"
    by (simp only: solver_standard_heap)
  show ?thesis using 1 2 by (simp add: solver_horizon_heap solver_standard_heap)
qed

theorem solvers_leave_caller_platepar_witness:
  "snd (rotationWrtHorizonToPosAngle probe_once [sample_platepar] 0 50) ! 0 = sample_platepar
   \<and> pos_angle_ref (snd (rotationWrtHorizonToPosAngle probe_once [sample_platepar] 0 50) ! 1) = 15"
proof -
  obtain r where r: "rotationWrtHorizon (sample_platepar\<lparr>pos_angle_ref := 15\<rparr>) = Inr r"
    using rotationWrtHorizon_returns[of "sample_platepar\<lparr>pos_angle_ref := 15\<rparr>"]
    by (auto simp: sample_platepar_def)
  have p: "pos_angle_ref sample_platepar = 10" by (simp add: sample_platepar_def)
  have res: "rotAngleResidual_horizon (Suc 0) t 15 [sample_platepar, sample_platepar]
         = (Inr (rotAngleDeviation t (pymod r 360)),
            [sample_platepar, sample_platepar\<lparr>pos_angle_ref := 15\<rparr>])" for t
    using r by (simp add: rotAngleResidual_horizon_def Let_def)
  have "snd (rotationWrtHorizonToPosAngle probe_once [sample_platepar] 0 50)
          = [sample_platepar, sample_platepar\<lparr>pos_angle_ref := 15\<rparr>]"
    by (simp add: rotationWrtHorizonToPosAngle_def deepcopy_def minimize_def probe_once_def
        eval_nat_numeral p res Let_def)
  then show ?thesis
    using solvers_leave_caller_platepar[where a = 0 and h = "[sample_platepar]" and nm = probe_once and rot = 50
        and ext = sample_externals]
    by simp
qed

section \<open>Adding 360 degrees to the position angle\<close>

lemma pymod_shift: "pymod (x - 360) 360 = pymod x 360"
proof -
  have "\<lfloor>(x - 360) / 360\<rfloor> = \<lfloor>x / 360 - 1\<rfloor>" by (simp add: diff_divide_distrib)
  then have "\<lfloor>(x - 360) / 360\<rfloor> = \<lfloor>x / 360\<rfloor> - 1" by simp
  then show ?thesis by (simp add: pymod_def algebra_simps)
qed

lemma XY2altAz_point_wrap:
  "XY2altAz_point la lo ra de ho (pa + 360) p = XY2altAz_point la lo ra de ho pa p"
proof -
  have "90 - (pa + 360) + d = (90 - pa + d) - 360" for d :: real by simp
  then have H: "pymod (90 - (pa + 360) + d) 360 = pymod (90 - pa + d) 360" for d
    by (simp only: pymod_shift)
  show ?thesis unfolding XY2altAz_point_def H by (rule refl)
qed

lemma XY2altAz_wrap:
  "XY2altAz X_data Y_data la lo ra de ho Xr Yr (pa + 360) F xp yp
     = XY2altAz X_data Y_data la lo ra de ho Xr Yr pa F xp yp"
proof -
  consider "length X_data \<noteq> length Y_data"
    | "length X_data = length Y_data" "X_data = []"
    | "length X_data = length Y_data" "X_data \<noteq> []" "length xp < 12 \<or> length yp < 12"
    | "length X_data = length Y_data" "12 \<le> length xp" "12 \<le> length yp"
    by linarith
  then show ?thesis
  proof cases
    case 1
    then show ?thesis by (simp add: XY2altAz_def applyFieldCorrection_def)
  next
    case 2
    then show ?thesis by (simp add: XY2altAz_def applyFieldCorrection_def)
  next
    case 3
    then show ?thesis by (simp add: XY2altAz_short_poly)
  next
    case 4
    then show ?thesis by (simp add: XY2altAz_map XY2altAz_point_wrap)
  qed
qed

lemma rotationWrtHorizon_wrap:
  "rotationWrtHorizon (pp\<lparr>pos_angle_ref := pos_angle_ref pp + 360\<rparr>) = rotationWrtHorizon pp"
  by (simp add: rotationWrtHorizon_def XY2altAz_wrap Let_def)

lemma cyXYToRADec_py_wrap:
  "cyXYToRADec_py J X Y la lo ho Xr Yr ra de (pa + 360) F xp yp
     = cyXYToRADec_py J X Y la lo ho Xr Yr ra de pa F xp yp"
  by (simp add: cyXYToRADec_py_def XY2altAz_wrap)

lemma XY2CorrectedRADec_wrap:
  assumes "cyXYToRADec ext = cyXYToRADec_py"
  shows "XY2CorrectedRADec ext td X Y lv la lo ho xr yr ra de (pa + 360) F m0 ml xp yp ht
           = XY2CorrectedRADec ext td X Y lv la lo ho xr yr ra de pa F m0 ml xp yp ht"
  by (simp only: XY2CorrectedRADec_def assms cyXYToRADec_py_wrap)

lemma rotationWrtStandard_wrap:
  assumes "cyXYToRADec ext = cyXYToRADec_py"
  shows "rotationWrtStandard ext (pp\<lparr>pos_angle_ref := pos_angle_ref pp + 360\<rparr>)
           = rotationWrtStandard ext pp"
  by (simp add: rotationWrtStandard_def XY2CorrectedRADecPP_def
        XY2CorrectedRADec_wrap[OF assms])

lemma rotationWrtHorizon_range:
  assumes "rotationWrtHorizon pp = Inr r"
  shows "- 180 < r" "r \<le> 180"
proof -
  obtain y x where r: "r = (let a = degrees (arctan2 y x) in if 180 < a then a - 360 else a)"
    using assms
    by (auto simp: rotationWrtHorizon_def Let_def split: sum.splits prod.splits)
  have "degrees (- pi) < degrees (arctan2 y x)" "degrees (arctan2 y x) \<le> degrees pi"
    using arctan2_bounds[of y x] by (simp_all only: degrees_strict_mono degrees_mono)
  then have "- 180 < degrees (arctan2 y x)" "degrees (arctan2 y x) \<le> 180"
    by (simp_all add: degrees_def)
  then show "- 180 < r" "r \<le> 180" using r by (simp_all add: Let_def)
qed

lemma rotationWrtStandard_range:
  assumes "rotationWrtStandard ext pp = Inr r"
  shows "0 \<le> r" "r < 360"
proof -
  obtain v where r: "r = pymod v 360"
    using assms
    by (auto simp: rotationWrtStandard_def Let_def split: sum.splits prod.splits if_splits)
  show "0 \<le> r" "r < 360" using pymod_bounds[of 360 v] r by simp_all
qed

text \<open>
  Claim C5. Adding 360 degrees to \<open>pos_angle_ref\<close> leaves the result of
  \<open>rotationWrtHorizon\<close> unchanged, and that of \<open>rotationWrtStandard\<close> when the pixel-to-sky
  step is the one modelled above; a value returned by \<open>rotationWrtHorizon\<close> lies in
  (-180, 180] and one returned by \<open>rotationWrtStandard\<close> in [0, 360).
\<close>

theorem rotation_invariant_under_360:
  assumes "cyXYToRADec ext = cyXYToRADec_py"
  shows "rotationWrtHorizon (pp\<lparr>pos_angle_ref := pos_angle_ref pp + 360\<rparr>) = rotationWrtHorizon pp
       \<and> rotationWrtStandard ext (pp\<lparr>pos_angle_ref := pos_angle_ref pp + 360\<rparr>)
           = rotationWrtStandard ext pp
       \<and> (\<forall>r. rotationWrtHorizon pp = Inr r \<longrightarrow> - 180 < r \<and> r \<le> 180)
       \<and> (\<forall>r. rotationWrtStandard ext pp = Inr r \<longrightarrow> 0 \<le> r \<and> r < 360)"
  using rotationWrtHorizon_wrap rotationWrtStandard_wrap[OF assms]
    rotationWrtHorizon_range rotationWrtStandard_range
  by blast

theorem rotation_invariant_under_360_witness:
  "rotationWrtHorizon (sample_platepar\<lparr>pos_angle_ref := 370\<rparr>) = rotationWrtHorizon sample_platepar
   \<and> rotationWrtStandard sample_externals (sample_platepar\<lparr>pos_angle_ref := 370\<rparr>)
       = rotationWrtStandard sample_externals sample_platepar
   \<and> (\<exists>r. rotationWrtHorizon sample_platepar = Inr r \<and> - 180 < r \<and> r \<le> 180)
   \<and> (\<exists>r. rotationWrtStandard sample_externals sample_platepar = Inr r \<and> 0 \<le> r \<and> r < 360)"
proof -
  have e: "cyXYToRADec sample_externals = cyXYToRADec_py"
    by (simp add: sample_externals_def)
  have p: "sample_platepar\<lparr>pos_angle_ref := pos_angle_ref sample_platepar + 360\<rparr>
             = sample_platepar\<lparr>pos_angle_ref := 370\<rparr>"
    by (simp add: sample_platepar_def)
  obtain r1 where r1: "rotationWrtHorizon sample_platepar = Inr r1"
    using rotationWrtHorizon_returns[of sample_platepar] by (auto simp: sample_platepar_def)
  obtain r2 where r2: "rotationWrtStandard sample_externals sample_platepar = Inr r2"
    using rotationWrtStandard_sample_returns[of 10] by (auto simp: sample_platepar_def)
  show ?thesis
    using rotation_invariant_under_360[OF e, of sample_platepar] r1 r2 by (simp add: p)
qed

section \<open>An altitude of exactly 90 degrees\<close>

lemma altAz2RADec_point_nudged:
  "altAz2RADec_point sl cl lo J az (if a = 90 then 899999 / 10000 else a)
     = altAz2RADec_point sl cl lo J az a"
  by (simp add: altAz2RADec_point_def)

lemma altAz2RADec_point_trig:
  "\<exists>a'. a' \<noteq> 90 \<and> (a = 90 \<longrightarrow> a' = 899999 / 10000) \<and> (a \<noteq> 90 \<longrightarrow> a' = a)
        \<and> altAz2RADec_point sl cl lo J az a = altAz2RADec_trig sl cl lo J az a'"
proof (cases "a = 90")
  case True
  then show ?thesis
    by (intro exI[of _ "899999 / 10000"]) (simp add: altAz2RADec_point_def)
next
  case False
  then show ?thesis
    by (intro exI[of _ a]) (simp add: altAz2RADec_point_def)
qed

lemma altAz2RADec_loop_altitude_cong:
  assumes "\<And>J az a. altAz2RADec_point sl cl lo J az (f a) = altAz2RADec_point sl cl lo J az a"
  shows "altAz2RADec_loop ext sl cl lo UT td dt (map (\<lambda>p. (fst p, f (snd p))) ps) i J R D
           = altAz2RADec_loop ext sl cl lo UT td dt ps i J R D"
proof (induction ps arbitrary: i J R D dt)
  case Nil
  show ?case by simp
next
  case (Cons p ps)
  show ?case
    by (simp add: Cons.IH assms Let_def split: sum.splits)
qed

lemma altAz2RADec_nudged:
  "altAz2RADec ext la lo UT td az (map (\<lambda>a. if a = 90 then 899999 / 10000 else a) alt) dt
     = altAz2RADec ext la lo UT td az alt dt"
proof -
  let ?f = "\<lambda>a::real. if a = 90 then 899999 / 10000 else a"
  have z: "zip az (map ?f alt) = map (\<lambda>p. (fst p, ?f (snd p))) (zip az alt)"
    by (simp add: zip_map2 case_prod_beta)
  have "altAz2RADec_loop ext sl cl lo UT td dt (map (\<lambda>p. (fst p, ?f (snd p))) ps) i J R D
           = altAz2RADec_loop ext sl cl lo UT td dt ps i J R D" for sl cl ps i J R D
    by (rule altAz2RADec_loop_altitude_cong) (rule altAz2RADec_point_nudged)
  then show ?thesis
    unfolding altAz2RADec_def Let_def z by simp
qed

text \<open>
  Claim C6. \<open>altAz2RADec\<close> returns (or raises) the same for an altitude array as for the
  array in which every entry equal to 90 is replaced by 89.9999. When the arrays have one
  length, \<open>time_data\<close> is long enough and the date conversion returns \<open>g k\<close> for entry
  \<open>k\<close>, it returns three arrays of that length, and entry \<open>k\<close> of the right ascensions
  and declinations is the trigonometry run on an altitude other than 90: 89.9999 when
  the given altitude is 90, and the given altitude otherwise.
\<close>

theorem altAz2RADec_altitude_90:
  "altAz2RADec ext la lo UT td az alt dt
     = altAz2RADec ext la lo UT td az (map (\<lambda>a. if a = 90 then 899999 / 10000 else a) alt) dt
   \<and> (length az = length alt \<and> length az \<le> length td
        \<and> (\<forall>k<length az. (if dt then datetime2JD ext (td ! k) (- UT)
                              else date2JD ext (td ! k) (- UT)) = Inr (g k))
      \<longrightarrow> (\<exists>JDs RAs decs.
             altAz2RADec ext la lo UT td az alt dt = Inr (JDs, RAs, decs)
             \<and> length JDs = length az \<and> length RAs = length az \<and> length decs = length az
             \<and> (\<forall>k<length az. \<exists>a. a \<noteq> 90
                    \<and> (alt ! k = 90 \<longrightarrow> a = 899999 / 10000) \<and> (alt ! k \<noteq> 90 \<longrightarrow> a = alt ! k)
                    \<and> JDs ! k = g k
                    \<and> (RAs ! k, decs ! k)
                        = altAz2RADec_trig (sin (radians la)) (cos (radians la)) lo (g k)
                            (az ! k) a)))"
proof (intro conjI impI)
  show "altAz2RADec ext la lo UT td az alt dt
     = altAz2RADec ext la lo UT td az (map (\<lambda>a. if a = 90 then 899999 / 10000 else a) alt) dt"
    by (simp only: altAz2RADec_nudged)
next
  let ?sl = "sin (radians la)" and ?cl = "cos (radians la)"
  let ?n = "length az"
  assume h: "length az = length alt \<and> length az \<le> length td
        \<and> (\<forall>k<length az. (if dt then datetime2JD ext (td ! k) (- UT)
                              else date2JD ext (td ! k) (- UT)) = Inr (g k))"
  let ?R = "map (\<lambda>k. fst (altAz2RADec_point ?sl ?cl lo (g k) (fst (zip az alt ! (k - 0)))
                             (snd (zip az alt ! (k - 0))))) [0..<0 + length (zip az alt)]"
  let ?D = "map (\<lambda>k. snd (altAz2RADec_point ?sl ?cl lo (g k) (fst (zip az alt ! (k - 0)))
                             (snd (zip az alt ! (k - 0))))) [0..<0 + length (zip az alt)]"
  have run: "altAz2RADec ext la lo UT td az alt dt = Inr (map g [0..<?n], ?R, ?D)"
    using h altAz2RADec_loop_map[of "replicate ?n 0" 0 "zip az alt" "replicate ?n 0"
        "replicate ?n 0" td dt ext UT g ?sl ?cl lo]
    by (simp add: altAz2RADec_def Let_def)
  have pt: "\<exists>a. a \<noteq> 90 \<and> (alt ! k = 90 \<longrightarrow> a = 899999 / 10000) \<and> (alt ! k \<noteq> 90 \<longrightarrow> a = alt ! k)
               \<and> map g [0..<?n] ! k = g k
               \<and> (?R ! k, ?D ! k) = altAz2RADec_trig ?sl ?cl lo (g k) (az ! k) a"
    if "k < ?n" for k
  proof -
    obtain a where a: "a \<noteq> 90" "alt ! k = 90 \<longrightarrow> a = 899999 / 10000" "alt ! k \<noteq> 90 \<longrightarrow> a = alt ! k"
      "altAz2RADec_point ?sl ?cl lo (g k) (az ! k) (alt ! k)
         = altAz2RADec_trig ?sl ?cl lo (g k) (az ! k) a"
      using altAz2RADec_point_trig[of "alt ! k" ?sl ?cl lo "g k" "az ! k"] by blast
    have "(?R ! k, ?D ! k) = altAz2RADec_point ?sl ?cl lo (g k) (az ! k) (alt ! k)"
      using that h by simp
    then show ?thesis using a that by auto
  qed
  show "\<exists>JDs RAs decs.
             altAz2RADec ext la lo UT td az alt dt = Inr (JDs, RAs, decs)
             \<and> length JDs = length az \<and> length RAs = length az \<and> length decs = length az
             \<and> (\<forall>k<length az. \<exists>a. a \<noteq> 90
                    \<and> (alt ! k = 90 \<longrightarrow> a = 899999 / 10000) \<and> (alt ! k \<noteq> 90 \<longrightarrow> a = alt ! k)
                    \<and> JDs ! k = g k
                    \<and> (RAs ! k, decs ! k)
                        = altAz2RADec_trig (sin (radians la)) (cos (radians la)) lo (g k)
                            (az ! k) a)"
    apply (rule exI[of _ "map g [0..<?n]"], rule exI[of _ ?R], rule exI[of _ ?D])
    using run pt h by simp
qed

theorem altAz2RADec_altitude_90_witness:
  "altAz2RADec sample_externals 45 15 0 [2451545] [180] [90] False
     = altAz2RADec sample_externals 45 15 0 [2451545] [180] [899999 / 10000] False
   \<and> (\<exists>JDs RAs decs. altAz2RADec sample_externals 45 15 0 [2451545] [180] [90] False
                     = Inr (JDs, RAs, decs)
        \<and> (RAs ! 0, decs ! 0)
            = altAz2RADec_trig (sin (radians 45)) (cos (radians 45)) 15 2451545 180
                (899999 / 10000))"
proof -
  note c = altAz2RADec_altitude_90[where ext = sample_externals and la = 45 and lo = 15 and UT = 0
      and td = "[2451545]" and az = "[180]" and alt = "[90]" and dt = False
      and g = "\<lambda>k. 2451545"]
  have h: "length [180::real] = length [90::real] \<and> length [180::real] \<le> length [2451545::real]
        \<and> (\<forall>k<length [180::real].
              (if False then datetime2JD sample_externals ([2451545] ! k) (- 0)
               else date2JD sample_externals ([2451545] ! k) (- 0)) = Inr 2451545)"
    by (simp add: sample_externals_def)
  have 1: "altAz2RADec sample_externals 45 15 0 [2451545] [180] [90] False
     = altAz2RADec sample_externals 45 15 0 [2451545] [180] [899999 / 10000] False"
    using c[THEN conjunct1] by simp
  obtain JDs RAs decs where run:
    "altAz2RADec sample_externals 45 15 0 [2451545] [180] [90] False = Inr (JDs, RAs, decs)"
    and pt: "\<forall>k<length [180::real]. \<exists>a. a \<noteq> 90
                    \<and> ([90] ! k = (90::real) \<longrightarrow> a = 899999 / 10000)
                    \<and> ([90] ! k \<noteq> (90::real) \<longrightarrow> a = [90] ! k)
                    \<and> JDs ! k = 2451545
                    \<and> (RAs ! k, decs ! k)
                        = altAz2RADec_trig (sin (radians 45)) (cos (radians 45)) 15 2451545
                            ([180] ! k) a"
    using c[THEN conjunct2, THEN mp, OF h] by blast
  from pt[rule_format, of 0] obtain a where "a = 899999 / 10000"
    "(RAs ! 0, decs ! 0) = altAz2RADec_trig (sin (radians 45)) (cos (radians 45)) 15 2451545 180 a"
    by auto
  then show ?thesis using 1 run by blast
qed

section \<open>Levels to magnitudes\<close>

lemma log_10_100: "log 10 100 = 2"
proof -
  have "log 10 (10 ^ 2) = real 2 * log 10 10" by (rule log_nat_power) simp
  then show ?thesis by simp
qed

text \<open>
  Claim C7, as the code has it. \<open>calculateMagnitudes\<close> raises nothing and returns an array
  of the length of the levels. The entry for a positive level is
  \<open>mag_0 * log10 level + mag_lev\<close>. The entry for a level of zero is the slope times minus
  infinity plus the offset: minus infinity for a positive slope, plus infinity for a
  negative slope and NaN for slope zero. The entry for a negative level is NaN.
\<close>

theorem calculateMagnitudes_entries:
  "length (calculateMagnitudes ls m0 ml) = length ls
   \<and> (\<forall>i<length ls.
        (0 < ls ! i \<longrightarrow> calculateMagnitudes ls m0 ml ! i = Finite (m0 * log 10 (ls ! i) + ml))
      \<and> (ls ! i = 0 \<longrightarrow> calculateMagnitudes ls m0 ml ! i
                          = (if 0 < m0 then NegInf else if m0 < 0 then PosInf else NaN))
      \<and> (ls ! i < 0 \<longrightarrow> calculateMagnitudes ls m0 ml ! i = NaN))"
  by (simp add: calculateMagnitudes_map np_log10_def)

theorem calculateMagnitudes_entries_witness:
  "calculateMagnitudes [100, 0, - 1] (- 5 / 2) 10 = [Finite 5, PosInf, NaN]"
  using calculateMagnitudes_entries[of "[100, 0, - 1]" "- 5 / 2" 10]
  by (simp add: calculateMagnitudes_map np_log10_def log_10_100)

text \<open>
  Claim C7 as stated fails for a level of zero under the slope of the magnitude
  definition: \<open>np.log10 0\<close> is minus infinity, its product with -2.5 is plus infinity,
  and the entry is plus infinity, neither NaN nor minus infinity.
\<close>

theorem calculateMagnitudes_zero_level_counterexample: "calculateMagnitudes [0] (- 5 / 2) 10 = [PosInf]"
  by (simp add: calculateMagnitudes_map np_log10_def)

(* XY2CorrectedRADec_noninterference *)

section \<open>Photometry and astrometry do not interfere\<close>

text \<open>
  Claim C10. Two runs of \<open>XY2CorrectedRADec\<close> on the same levels and photometric
  coefficients that both return, whatever their time, X and Y arrays, return the same
  magnitude array, which is \<open>calculateMagnitudes\<close> of the levels and coefficients. Two
  runs that differ only in the level array raise the same exception or return the same
  Julian dates, right ascensions and declinations.
\<close>

theorem XY2CorrectedRADec_noninterference:
  "(XY2CorrectedRADec ext td X Y lv la lo ho xr yr ra de pa F m0 ml xp yp ht = Inr (J1, R1, D1, M1)
      \<and> XY2CorrectedRADec ext td' X' Y' lv la lo ho xr yr ra de pa F m0 ml xp yp ht = Inr (J2, R2, D2, M2)
      \<longrightarrow> M1 = M2 \<and> M1 = calculateMagnitudes lv m0 ml)
   \<and> map_sum id (\<lambda>(J, R, D, M). (J, R, D))
          (XY2CorrectedRADec ext td X Y lv la lo ho xr yr ra de pa F m0 ml xp yp ht)
       = map_sum id (\<lambda>(J, R, D, M). (J, R, D))
          (XY2CorrectedRADec ext td X Y lv' la lo ho xr yr ra de pa F m0 ml xp yp ht)"
  by (auto simp: XY2CorrectedRADec_def Let_def split: sum.splits prod.splits)

theorem XY2CorrectedRADec_noninterference_witness:
  "\<exists>R1 D1 R2 D2 M.
      XY2CorrectedRADec sample_externals [2451545] [100] [200] [100] 45 15 30 1280 720 120 40 10 16
          (- 5 / 2) 10 (replicate 12 0) (replicate 12 0) 100 = Inr ([2451545], R1, D1, M)
    \<and> XY2CorrectedRADec sample_externals [2451546] [300] [400] [100] 45 15 30 1280 720 120 40 10 16
          (- 5 / 2) 10 (replicate 12 0) (replicate 12 0) 100 = Inr ([2451546], R2, D2, M)
    \<and> M = [Finite 5]"
proof -
  obtain R1 D1 where 1:
    "XY2CorrectedRADec sample_externals [2451545] [100] [200] [100] 45 15 30 1280 720 120 40 10 16
          (- 5 / 2) 10 (replicate 12 0) (replicate 12 0) 100
       = Inr ([2451545], R1, D1, calculateMagnitudes [100] (- 5 / 2) 10)"
    using XY2CorrectedRADec_sample_returns[where X = "[100]" and Y = "[200]"
        and td = "[2451545]" and lv = "[100]" and la = 45 and lo = 15 and ho = 30 and xr = 1280
        and yr = 720 and ra = 120 and de = 40 and pa = 10 and F = 16 and ?m0.0 = "- 5 / 2"
        and ml = 10 and ht = 100]
    by auto
  obtain R2 D2 where 2:
    "XY2CorrectedRADec sample_externals [2451546] [300] [400] [100] 45 15 30 1280 720 120 40 10 16
          (- 5 / 2) 10 (replicate 12 0) (replicate 12 0) 100
       = Inr ([2451546], R2, D2, calculateMagnitudes [100] (- 5 / 2) 10)"
    using XY2CorrectedRADec_sample_returns[where X = "[300]" and Y = "[400]"
        and td = "[2451546]" and lv = "[100]" and la = 45 and lo = 15 and ho = 30 and xr = 1280
        and yr = 720 and ra = 120 and de = 40 and pa = 10 and F = 16 and ?m0.0 = "- 5 / 2"
        and ml = 10 and ht = 100]
    by auto
  have m: "calculateMagnitudes [100] (- 5 / 2) 10 = [Finite 5]"
    by (simp add: calculateMagnitudes_map np_log10_def log_10_100)
  show ?thesis
    using XY2CorrectedRADec_noninterference[where ext = sample_externals and td = "[2451545]" and X = "[100]" and Y = "[200]"
        and lv = "[100]" and la = 45 and lo = 15 and ho = 30 and xr = 1280 and yr = 720
        and ra = 120 and de = 40 and pa = 10 and F = 16 and ?m0.0 = "- 5 / 2" and ml = 10
        and xp = "replicate 12 0" and yp = "replicate 12 0" and ht = 100
        and ?J1.0 = "[2451545]" and ?R1.0 = R1 and ?D1.0 = D1
        and ?M1.0 = "calculateMagnitudes [100] (- 5 / 2) 10"
        and td' = "[2451546]" and X' = "[300]" and Y' = "[400]"
        and ?J2.0 = "[2451546]" and ?R2.0 = R2 and ?D2.0 = D2
        and ?M2.0 = "calculateMagnitudes [100] (- 5 / 2) 10"] 1 2 m
    by simp
qed

section \<open>Sine and cosine of the two-argument arctangent\<close>

lemma sqrt_one_plus_ratio:
  assumes "x \<noteq> 0"
  shows "sqrt (1 + (y / x)\<^sup>2) = sqrt (x\<^sup>2 + y\<^sup>2) / \<bar>x\<bar>"
proof -
  have "1 + (y / x)\<^sup>2 = (x\<^sup>2 + y\<^sup>2) / x\<^sup>2"
    using assms by (simp add: field_simps power2_eq_square)
  then show ?thesis by (simp add: real_sqrt_divide)
qed

lemma sin_cos_arctan2:
  assumes "x \<noteq> 0 \<or> y \<noteq> 0"
  shows "sin (arctan2 y x) = y / sqrt (x\<^sup>2 + y\<^sup>2)"
    and "cos (arctan2 y x) = x / sqrt (x\<^sup>2 + y\<^sup>2)"
proof -
  have pos: "0 < sqrt (x\<^sup>2 + y\<^sup>2)"
    using assms by (simp add: sum_power2_gt_zero_iff)
  consider "0 < x" | "x < 0" "0 \<le> y" | "x < 0" "y < 0" | "x = 0" "0 < y" | "x = 0" "y < 0"
    using assms by linarith
  then have "sin (arctan2 y x) = y / sqrt (x\<^sup>2 + y\<^sup>2) \<and> cos (arctan2 y x) = x / sqrt (x\<^sup>2 + y\<^sup>2)"
  proof cases
    case 1
    then show ?thesis
      using pos by (simp add: arctan2_def sin_arctan cos_arctan sqrt_one_plus_ratio)
  next
    case 2
    then show ?thesis
      using pos by (simp add: arctan2_def sin_arctan cos_arctan sqrt_one_plus_ratio)
  next
    case 3
    then show ?thesis
      using pos by (simp add: arctan2_def sin_arctan cos_arctan sqrt_one_plus_ratio sin_diff cos_diff)
  next
    case 4
    then show ?thesis by (simp add: arctan2_def)
  next
    case 5
    then show ?thesis by (simp add: arctan2_def)
  qed
  then show "sin (arctan2 y x) = y / sqrt (x\<^sup>2 + y\<^sup>2)"
    and "cos (arctan2 y x) = x / sqrt (x\<^sup>2 + y\<^sup>2)" by simp_all
qed

lemma sin_cos_arctan2_unit:
  assumes "x\<^sup>2 + y\<^sup>2 = 1"
  shows "sin (arctan2 y x) = y" "cos (arctan2 y x) = x"
proof -
  have "x \<noteq> 0 \<or> y \<noteq> 0" using assms by auto
  then show "sin (arctan2 y x) = y" "cos (arctan2 y x) = x"
    using sin_cos_arctan2[of x y] assms by simp_all
qed

lemma radians_degrees [simp]: "radians (degrees x) = x"
  by (simp add: radians_def degrees_def)

lemma radians_pymod_360: "radians (pymod d 360) = radians d - (2 * pi) * of_int \<lfloor>d / 360\<rfloor>"
  by (simp add: radians_def pymod_def field_simps)

lemma sin_radians_pymod [simp]: "sin (radians (pymod d 360)) = sin (radians d)"
  by (simp add: radians_pymod_360 sin_diff)

lemma cos_radians_pymod [simp]: "cos (radians (pymod d 360)) = cos (radians d)"
  by (simp add: radians_pymod_360 cos_diff)

lemma radians_add: "radians (a + b) = radians a + radians b"
  and radians_diff: "radians (a - b) = radians a - radians b"
  by (simp_all add: radians_def algebra_simps add_divide_distrib diff_divide_distrib)

section \<open>The pixel-to-sky step in closed form\<close>

text \<open>
  A point of the unit sphere given in horizontal coordinates is carried by
  \<open>altAz2RADec_point\<close> to the equatorial coordinates of the same point, away from the
  zenith and the nadir.
\<close>

lemma altAz2RADec_trig_sidereal:
  "altAz2RADec_trig sl cl lo J az alt =
     (pymod (sidereal_deg J + lo
             - degrees (arctan2 (- sin (radians az) * cos (radians alt))
                                (- cos (radians az) * sl * cos (radians alt)
                                 + sin (radians alt) * cl))) 360,
      degrees (arcsin (sl * sin (radians alt) + cl * cos (radians alt) * cos (radians az))))"
  unfolding altAz2RADec_trig_def sidereal_deg_def Let_def by (rule refl)

lemma horizontal_unit:
  fixes sl cl sd cd sh ch :: real
  assumes sl: "sl\<^sup>2 + cl\<^sup>2 = 1" and sd: "sd\<^sup>2 + cd\<^sup>2 = 1" and sh: "sh\<^sup>2 + ch\<^sup>2 = 1"
    and x: "x = - ch * cd * sl + sd * cl" and y: "y = - sh * cd" and z: "z = ch * cd * cl + sd * sl"
  shows "x\<^sup>2 + y\<^sup>2 + z\<^sup>2 = 1"
proof -
  have "x\<^sup>2 + y\<^sup>2 + z\<^sup>2 = (ch\<^sup>2 * cd\<^sup>2 + sd\<^sup>2) * (sl\<^sup>2 + cl\<^sup>2) + sh\<^sup>2 * cd\<^sup>2"
    unfolding x y z by (simp add: power2_eq_square algebra_simps)
  also have "\<dots> = cd\<^sup>2 * (sh\<^sup>2 + ch\<^sup>2) + sd\<^sup>2"
    using sl by (simp add: algebra_simps)
  also have "\<dots> = 1"
  proof -
    have "cd\<^sup>2 * (sh\<^sup>2 + ch\<^sup>2) + sd\<^sup>2 = cd\<^sup>2 + sd\<^sup>2"
      by (simp only: sh mult_1_right)
    then show ?thesis using sd by linarith
  qed
  finally show ?thesis .
qed

lemma horizontal_roundtrip:
  fixes sl cl sd cd sh ch :: real
  assumes sl: "sl\<^sup>2 + cl\<^sup>2 = 1" and sd: "sd\<^sup>2 + cd\<^sup>2 = 1" and sh: "sh\<^sup>2 + ch\<^sup>2 = 1"
    and x: "x = - ch * cd * sl + sd * cl" and y: "y = - sh * cd" and z: "z = ch * cd * cl + sd * sl"
    and r: "r = sqrt (x\<^sup>2 + y\<^sup>2)" and r0: "r \<noteq> 0"
  shows "altAz2RADec_point sl cl lo J (pymod (degrees (arctan2 y x)) 360) (degrees (arctan2 z r))
           = (pymod (sidereal_deg J + lo - degrees (arctan2 (sh * cd) (ch * cd))) 360,
              degrees (arcsin sd))"
proof -
  have unit: "x\<^sup>2 + y\<^sup>2 + z\<^sup>2 = 1"
    by (rule horizontal_unit[OF sl sd sh x y z])
  have rpos: "0 < r" using r r0 by (simp add: less_le)
  have r2: "r\<^sup>2 = x\<^sup>2 + y\<^sup>2" using r by simp
  have rz: "r\<^sup>2 + z\<^sup>2 = 1" using unit r2 by simp
  have xy: "x \<noteq> 0 \<or> y \<noteq> 0" using r r0 by auto
  have f1: "sin (radians (pymod (degrees (arctan2 y x)) 360)) = y / r"
    using sin_cos_arctan2(1)[OF xy] r by simp
  have f2: "cos (radians (pymod (degrees (arctan2 y x)) 360)) = x / r"
    using sin_cos_arctan2(2)[OF xy] r by simp
  have f3: "sin (radians (degrees (arctan2 z r))) = z"
    using sin_cos_arctan2_unit(1)[OF rz] by simp
  have f4: "cos (radians (degrees (arctan2 z r))) = r"
    using sin_cos_arctan2_unit(2)[OF rz] by simp
  have "arctan2 z r = arctan (z / r)" using rpos by (simp add: arctan2_def)
  then have "arctan2 z r < pi / 2" using arctan_ubound[of "z / r"] by simp
  then have "degrees (arctan2 z r) < degrees (pi / 2)" by (rule degrees_strict_mono)
  then have f5: "degrees (arctan2 z r) \<noteq> 90" by (simp add: degrees_values)
  have g1: "- (y / r) * r = sh * cd" using r0 y by simp
  have "- (x / r) * sl * r + z * cl = - x * sl + z * cl" using r0 by simp
  also have "\<dots> = ch * cd * (sl\<^sup>2 + cl\<^sup>2)"
    unfolding x z by (simp add: power2_eq_square algebra_simps)
  finally have g2: "- (x / r) * sl * r + z * cl = ch * cd" using sl by simp
  have "sl * z + cl * r * (x / r) = sl * z + cl * x" using r0 by simp
  also have "\<dots> = sd * (sl\<^sup>2 + cl\<^sup>2)"
    unfolding x z by (simp add: power2_eq_square algebra_simps)
  finally have g3: "sl * z + cl * r * (x / r) = sd" using sl by simp
  show ?thesis
    unfolding altAz2RADec_point_def Let_def altAz2RADec_trig_sidereal
    by (simp only: f5 if_False f1 f2 f3 f4 g1 g2 g3)
qed

lemma XY2altAz_point_expand:
  assumes "s = sin_dec de pa q"
    and "dl = arctan2 s (sqrt (1 - s\<^sup>2))"
    and "A = arctan2 (sin (plane_angle pa q) * sin (plane_radius q) / cos dl)
                     ((cos (plane_radius q) - sin dl * sin (radians de))
                      / (cos dl * cos (radians de)))"
    and "h = radians (ho + lo - pymod (ra - degrees A) 360)"
    and "x = - cos h * cos dl * sin (radians la) + sin dl * cos (radians la)"
    and "y = - sin h * cos dl"
    and "z = cos h * cos dl * cos (radians la) + sin dl * sin (radians la)"
  shows "XY2altAz_point la lo ra de ho pa q
           = (pymod (degrees (arctan2 y x)) 360, degrees (arctan2 z (sqrt (x\<^sup>2 + y\<^sup>2))))"
  unfolding assms XY2altAz_point_def Let_def plane_radius_def plane_angle_def sin_dec_def
  by (rule refl)

lemma sin_dec_identity:
  fixes s0 c0 sr cr st ct :: real
  assumes "s0\<^sup>2 + c0\<^sup>2 = 1" "sr\<^sup>2 + cr\<^sup>2 = 1" "st\<^sup>2 + ct\<^sup>2 = 1"
  shows "(s0 * cr + c0 * sr * ct)\<^sup>2 + (c0 * cr - s0 * sr * ct)\<^sup>2 + (st * sr)\<^sup>2 = 1"
proof -
  have "(s0 * cr + c0 * sr * ct)\<^sup>2 + (c0 * cr - s0 * sr * ct)\<^sup>2 + (st * sr)\<^sup>2
          = (s0\<^sup>2 + c0\<^sup>2) * cr\<^sup>2 + (s0\<^sup>2 + c0\<^sup>2) * sr\<^sup>2 * ct\<^sup>2 + st\<^sup>2 * sr\<^sup>2"
    by (simp add: power2_eq_square algebra_simps)
  also have "\<dots> = cr\<^sup>2 + sr\<^sup>2 * (st\<^sup>2 + ct\<^sup>2)"
    by (simp only: assms(1)) (simp add: algebra_simps)
  also have "\<dots> = cr\<^sup>2 + sr\<^sup>2" by (simp only: assms(3) mult_1_right)
  finally show ?thesis using assms(2) by linarith
qed

lemma sin_radians_minus_pymod: "sin (radians (u - pymod v 360)) = sin (radians (u - v))"
  and cos_radians_minus_pymod: "cos (radians (u - pymod v 360)) = cos (radians (u - v))"
  by (simp_all add: radians_diff sin_diff cos_diff)

lemma sin_dec_bound: "(sin_dec de pa q)\<^sup>2 \<le> 1"
proof -
  have "(sin_dec de pa q)\<^sup>2
          + (cos (radians de) * cos (plane_radius q)
             - sin (radians de) * sin (plane_radius q) * cos (plane_angle pa q))\<^sup>2
          + (sin (plane_angle pa q) * sin (plane_radius q))\<^sup>2 = 1"
    unfolding sin_dec_def by (rule sin_dec_identity) simp_all
  moreover have "0 \<le> (cos (radians de) * cos (plane_radius q)
             - sin (radians de) * sin (plane_radius q) * cos (plane_angle pa q))\<^sup>2"
    "0 \<le> (sin (plane_angle pa q) * sin (plane_radius q))\<^sup>2" by simp_all
  ultimately show ?thesis by linarith
qed

lemma sin_dec_range: "- 1 \<le> sin_dec de pa q" "sin_dec de pa q \<le> 1"
proof -
  have "\<bar>sin_dec de pa q\<bar> \<le> 1"
    using sin_dec_bound[of de pa q] abs_le_square_iff[of "sin_dec de pa q" 1] by simp
  then show "- 1 \<le> sin_dec de pa q" "sin_dec de pa q \<le> 1" by linarith+
qed

lemma cos_dec_square:
  assumes "c = sqrt (1 - (sin_dec de pa q)\<^sup>2)"
  shows "c\<^sup>2 + (sin_dec de pa q)\<^sup>2 = 1" "0 \<le> c"
  using sin_dec_bound[of de pa q] assms by simp_all

lemma scaled_norm:
  fixes a b c :: real
  shows "sqrt ((a * c)\<^sup>2 + (b * c)\<^sup>2) = \<bar>c\<bar> * sqrt (a\<^sup>2 + b\<^sup>2)"
proof -
  have "(a * c)\<^sup>2 + (b * c)\<^sup>2 = c\<^sup>2 * (a\<^sup>2 + b\<^sup>2)"
    by (simp add: power2_eq_square algebra_simps)
  then show ?thesis by (simp add: real_sqrt_mult)
qed

lemma XY2altAz_point_frame:
  assumes s: "s = sin_dec de pa q" and c: "c = sqrt (1 - s\<^sup>2)"
    and h: "h = point_hour_angle lo ra de ho pa q"
    and x: "x = - cos h * c * sin (radians la) + s * cos (radians la)"
    and y: "y = - sin h * c"
    and z: "z = cos h * c * cos (radians la) + s * sin (radians la)"
  shows "XY2altAz_point la lo ra de ho pa q
           = (pymod (degrees (arctan2 y x)) 360, degrees (arctan2 z (sqrt (x\<^sup>2 + y\<^sup>2))))"
    and "x\<^sup>2 + y\<^sup>2 + z\<^sup>2 = 1"
proof -
  define dl where "dl = arctan2 s (sqrt (1 - s\<^sup>2))"
  have u: "c\<^sup>2 + s\<^sup>2 = 1" unfolding s using cos_dec_square(1)[OF c[unfolded s]] .
  have dl: "sin dl = s" "cos dl = c"
    unfolding dl_def c[symmetric] by (rule sin_cos_arctan2_unit[OF u])+
  have A: "bearing de pa q
             = arctan2 (sin (plane_angle pa q) * sin (plane_radius q) / cos dl)
                       ((cos (plane_radius q) - sin dl * sin (radians de))
                        / (cos dl * cos (radians de)))"
    unfolding bearing_def dl c s by (rule refl)
  show "XY2altAz_point la lo ra de ho pa q
           = (pymod (degrees (arctan2 y x)) 360, degrees (arctan2 z (sqrt (x\<^sup>2 + y\<^sup>2))))"
    by (rule XY2altAz_point_expand[OF s dl_def A h[unfolded point_hour_angle_def]
          x[folded dl] y[folded dl(2)] z[folded dl]])
  have "s\<^sup>2 + c\<^sup>2 = 1" using u by (simp add: add.commute)
  then show "x\<^sup>2 + y\<^sup>2 + z\<^sup>2 = 1"
    by (rule horizontal_unit[of "sin (radians la)" "cos (radians la)" s c "sin h" "cos h",
          OF _ _ _ x y z, rotated 1]) simp_all
qed

lemma altitude_sine:
  "sin (radians (snd (XY2altAz_point la lo ra de ho pa q))) = sin_alt la lo ra de ho pa q"
proof -
  define s where "s = sin_dec de pa q"
  define c where "c = sqrt (1 - s\<^sup>2)"
  define h where "h = point_hour_angle lo ra de ho pa q"
  define x where "x = - cos h * c * sin (radians la) + s * cos (radians la)"
  define y where "y = - sin h * c"
  define z where "z = cos h * c * cos (radians la) + s * sin (radians la)"
  note fr = XY2altAz_point_frame[OF s_def c_def h_def x_def y_def z_def]
  have "(sqrt (x\<^sup>2 + y\<^sup>2))\<^sup>2 + z\<^sup>2 = 1" using fr(2) by simp
  then have "sin (arctan2 z (sqrt (x\<^sup>2 + y\<^sup>2))) = z" by (rule sin_cos_arctan2_unit)
  then show ?thesis
    unfolding fr(1) snd_conv sin_alt_def z_def h_def c_def s_def by simp
qed

lemma altitude_regular:
  assumes "(sin_alt la lo ra de ho pa q)\<^sup>2 \<noteq> 1"
  shows "snd (XY2altAz_point la lo ra de ho pa q) \<noteq> 90"
    and "snd (XY2altAz_point la lo ra de ho pa q) \<noteq> - 90"
proof -
  have a: "sin (radians 90) = 1" "sin (radians (- 90)) = - 1"
    by (simp_all add: radians_def)
  show "snd (XY2altAz_point la lo ra de ho pa q) \<noteq> 90"
  proof
    assume "snd (XY2altAz_point la lo ra de ho pa q) = 90"
    then have "sin_alt la lo ra de ho pa q = 1"
      using altitude_sine[of la lo ra de ho pa q] a by simp
    then show False using assms by simp
  qed
  show "snd (XY2altAz_point la lo ra de ho pa q) \<noteq> - 90"
  proof
    assume "snd (XY2altAz_point la lo ra de ho pa q) = - 90"
    then have "sin_alt la lo ra de ho pa q = - 1"
      using altitude_sine[of la lo ra de ho pa q] a by simp
    then show False using assms by simp
  qed
qed

lemma pixel_sky_value:
  assumes alt: "snd (XY2altAz_point la lo ra de ho pa q) \<noteq> 90"
               "snd (XY2altAz_point la lo ra de ho pa q) \<noteq> - 90"
    and s: "s = sin_dec de pa q" and c: "c = sqrt (1 - s\<^sup>2)"
    and h: "h = point_hour_angle lo ra de ho pa q"
  shows "pixel_sky la lo ra de ho pa J q
           = (pymod (sidereal_deg J + lo - degrees (arctan2 (sin h * c) (cos h * c))) 360,
              degrees (arcsin s))"
proof -
  define x where "x = - cos h * c * sin (radians la) + s * cos (radians la)"
  define y where "y = - sin h * c"
  define z where "z = cos h * c * cos (radians la) + s * sin (radians la)"
  define r where "r = sqrt (x\<^sup>2 + y\<^sup>2)"
  note fr = XY2altAz_point_frame[OF s c h x_def y_def z_def]
  have xy: "XY2altAz_point la lo ra de ho pa q
              = (pymod (degrees (arctan2 y x)) 360, degrees (arctan2 z r))"
    unfolding r_def by (rule fr(1))
  have r0: "r \<noteq> 0"
  proof
    assume "r = 0"
    then have x0: "x = 0" and y0: "y = 0"
      unfolding r_def
      by (simp_all add: real_sqrt_eq_zero_cancel_iff[of "x\<^sup>2 + y\<^sup>2"] sum_power2_eq_zero_iff)
    have "z \<noteq> 0" using fr(2) x0 y0 by auto
    then have "arctan2 z r = pi / 2 \<or> arctan2 z r = - (pi / 2)"
      using \<open>r = 0\<close> by (auto simp: arctan2_def)
    then have "degrees (arctan2 z r) = degrees (pi / 2)
               \<or> degrees (arctan2 z r) = degrees (- (pi / 2))"
      by (elim disjE) (simp_all only: simp_thms)
    then have "degrees (arctan2 z r) = 90 \<or> degrees (arctan2 z r) = - 90"
      by (simp only: degrees_values)
    then show False using alt xy by simp
  qed
  have u: "s\<^sup>2 + c\<^sup>2 = 1"
    using cos_dec_square(1)[OF c[unfolded s]] unfolding s by (simp add: add.commute)
  show ?thesis
    unfolding pixel_sky_def xy fst_conv snd_conv
    by (rule horizontal_roundtrip[of "sin (radians la)" "cos (radians la)" s c "sin h" "cos h",
          OF _ u _ x_def y_def z_def r_def r0]) simp_all
qed

lemma declination_regular:
  assumes alt: "snd (XY2altAz_point la lo ra de ho pa q) \<noteq> 90"
               "snd (XY2altAz_point la lo ra de ho pa q) \<noteq> - 90"
  shows "(snd (pixel_sky la lo ra de ho pa J q) = 90 \<or> snd (pixel_sky la lo ra de ho pa J q) = - 90)
           \<longleftrightarrow> (sin_dec de pa q)\<^sup>2 = 1"
proof -
  have v: "snd (pixel_sky la lo ra de ho pa J q) = degrees (arcsin (sin_dec de pa q))"
    using pixel_sky_value[OF alt refl refl refl, of J] by simp
  have b: "- 1 \<le> sin_dec de pa q" "sin_dec de pa q \<le> 1" by (rule sin_dec_range)+
  show ?thesis
  proof
    assume "(sin_dec de pa q)\<^sup>2 = 1"
    then have "sin_dec de pa q = 1 \<or> sin_dec de pa q = - 1" by (simp add: power2_eq_1_iff)
    then have "arcsin (sin_dec de pa q) = pi / 2 \<or> arcsin (sin_dec de pa q) = - (pi / 2)"
      by auto
    then have "degrees (arcsin (sin_dec de pa q)) = degrees (pi / 2)
               \<or> degrees (arcsin (sin_dec de pa q)) = degrees (- (pi / 2))"
      by (elim disjE) (simp_all only: simp_thms)
    then show "snd (pixel_sky la lo ra de ho pa J q) = 90
               \<or> snd (pixel_sky la lo ra de ho pa J q) = - 90"
      unfolding v by (simp only: degrees_values)
  next
    assume "snd (pixel_sky la lo ra de ho pa J q) = 90
            \<or> snd (pixel_sky la lo ra de ho pa J q) = - 90"
    then have d: "degrees (arcsin (sin_dec de pa q)) = 90
                  \<or> degrees (arcsin (sin_dec de pa q)) = - 90"
      unfolding v .
    have rd: "radians (degrees (arcsin (sin_dec de pa q))) = arcsin (sin_dec de pa q)"
      by (rule radians_degrees)
    have r90: "radians 90 = pi / 2" "radians (- 90) = - (pi / 2)"
      by (simp_all add: radians_def)
    from d have "arcsin (sin_dec de pa q) = pi / 2 \<or> arcsin (sin_dec de pa q) = - (pi / 2)"
    proof
      assume "degrees (arcsin (sin_dec de pa q)) = 90"
      then have "radians (degrees (arcsin (sin_dec de pa q))) = radians 90" by (rule arg_cong)
      then show ?thesis unfolding rd r90 by (rule disjI1)
    next
      assume "degrees (arcsin (sin_dec de pa q)) = - 90"
      then have "radians (degrees (arcsin (sin_dec de pa q))) = radians (- 90)" by (rule arg_cong)
      then show ?thesis unfolding rd r90 by (rule disjI2)
    qed
    then have "sin (arcsin (sin_dec de pa q)) = 1 \<or> sin (arcsin (sin_dec de pa q)) = - 1"
    proof
      assume e: "arcsin (sin_dec de pa q) = pi / 2"
      show ?thesis unfolding e by (rule disjI1) (rule sin_pi_half)
    next
      assume e: "arcsin (sin_dec de pa q) = - (pi / 2)"
      show ?thesis unfolding e by (rule disjI2) simp
    qed
    then have "sin_dec de pa q = 1 \<or> sin_dec de pa q = - 1" using b by simp
    then show "(sin_dec de pa q)\<^sup>2 = 1" by (elim disjE) simp_all
  qed
qed

lemma bearing_sin_cos:
  assumes s: "s = sin_dec de pa q" and c: "c = sqrt (1 - s\<^sup>2)"
    and sA: "sA = sin (plane_angle pa q) * sin (plane_radius q) / c"
    and cA: "cA = (cos (plane_radius q) - s * sin (radians de)) / (c * cos (radians de))"
    and d0: "cos (radians de) \<noteq> 0" and c0: "c \<noteq> 0"
  shows "sin (bearing de pa q) = sA" "cos (bearing de pa q) = cA" "sA\<^sup>2 + cA\<^sup>2 = 1"
    and "c * cA = cos (radians de) * cos (plane_radius q)
                  - sin (radians de) * sin (plane_radius q) * cos (plane_angle pa q)"
proof -
  let ?s0 = "sin (radians de)" and ?c0 = "cos (radians de)"
  let ?sr = "sin (plane_radius q)" and ?cr = "cos (plane_radius q)"
  let ?st = "sin (plane_angle pa q)" and ?ct = "cos (plane_angle pa q)"
  have ident: "s\<^sup>2 + (?c0 * ?cr - ?s0 * ?sr * ?ct)\<^sup>2 + (?st * ?sr)\<^sup>2 = 1"
    unfolding s sin_dec_def by (rule sin_dec_identity) simp_all
  have c2: "c\<^sup>2 = 1 - s\<^sup>2"
    using cos_dec_square(1)[OF c[unfolded s]] unfolding s by linarith
  have fact: "?cr - s * ?s0 = ?c0 * (?c0 * ?cr - ?s0 * ?sr * ?ct)"
  proof -
    have "?cr - s * ?s0 = (1 - ?s0\<^sup>2) * ?cr - ?s0 * ?c0 * ?sr * ?ct"
      unfolding s sin_dec_def by (simp add: power2_eq_square algebra_simps)
    also have "1 - ?s0\<^sup>2 = ?c0\<^sup>2" by (simp add: cos_squared_eq)
    finally show ?thesis by (simp add: power2_eq_square algebra_simps)
  qed
  have cA': "cA = (?c0 * ?cr - ?s0 * ?sr * ?ct) / c"
    unfolding cA fact using d0 by simp
  show "c * cA = ?c0 * ?cr - ?s0 * ?sr * ?ct" unfolding cA' using c0 by simp
  show unitA: "sA\<^sup>2 + cA\<^sup>2 = 1"
  proof -
    have "sA\<^sup>2 + cA\<^sup>2 = ((?st * ?sr)\<^sup>2 + (?c0 * ?cr - ?s0 * ?sr * ?ct)\<^sup>2) / c\<^sup>2"
      unfolding sA cA' by (simp add: power_divide add_divide_distrib)
    also have "(?st * ?sr)\<^sup>2 + (?c0 * ?cr - ?s0 * ?sr * ?ct)\<^sup>2 = c\<^sup>2"
      using ident c2 by linarith
    finally show ?thesis using c0 by simp
  qed
  have A_eq: "bearing de pa q = arctan2 sA cA" unfolding bearing_def sA cA c s by (rule refl)
  have "cA\<^sup>2 + sA\<^sup>2 = 1" using unitA by (simp add: add.commute)
  then show "sin (bearing de pa q) = sA" "cos (bearing de pa q) = cA"
    unfolding A_eq by (rule sin_cos_arctan2_unit)+
qed

lemma point_hour_angle_sin_cos:
  "sin (point_hour_angle lo ra de ho pa q) = sin (radians (ho + lo - ra) + bearing de pa q)"
  "cos (point_hour_angle lo ra de ho pa q) = cos (radians (ho + lo - ra) + bearing de pa q)"
proof -
  have "radians (ho + lo - (ra - degrees (bearing de pa q)))
          = radians (ho + lo - ra) + bearing de pa q"
    by (simp add: radians_def degrees_def field_simps)
  then show
    "sin (point_hour_angle lo ra de ho pa q) = sin (radians (ho + lo - ra) + bearing de pa q)"
    "cos (point_hour_angle lo ra de ho pa q) = cos (radians (ho + lo - ra) + bearing de pa q)"
    unfolding point_hour_angle_def
    by (simp_all add: sin_radians_minus_pymod cos_radians_minus_pymod)
qed

lemma sky_point:
  fixes la lo ra de ho pa J :: real and q :: "real \<times> real"
  assumes s: "s = sin_dec de pa q" and c: "c = sqrt (1 - s\<^sup>2)"
    and sA: "sA = sin (plane_angle pa q) * sin (plane_radius q) / c"
    and cA: "cA = (cos (plane_radius q) - s * sin (radians de)) / (c * cos (radians de))"
    and k: "k = radians (sidereal_deg J + lo) - radians (ho + lo - ra)"
    and d0: "cos (radians de) \<noteq> 0"
    and alt: "snd (XY2altAz_point la lo ra de ho pa q) \<noteq> 90"
             "snd (XY2altAz_point la lo ra de ho pa q) \<noteq> - 90"
    and dec: "snd (pixel_sky la lo ra de ho pa J q) \<noteq> 90"
             "snd (pixel_sky la lo ra de ho pa J q) \<noteq> - 90"
  shows "sin (radians (snd (pixel_sky la lo ra de ho pa J q))) = s"
    and "cos (radians (snd (pixel_sky la lo ra de ho pa J q))) = c"
    and "sA\<^sup>2 + cA\<^sup>2 = 1" and "c \<noteq> 0"
    and "cos (radians (fst (pixel_sky la lo ra de ho pa J q))) = cos k * cA + sin k * sA"
    and "sin (radians (fst (pixel_sky la lo ra de ho pa J q))) = sin k * cA - cos k * sA"
proof -
  define h where "h = point_hour_angle lo ra de ho pa q"
  define A where "A = bearing de pa q"
  note pt = pixel_sky_value[OF alt s c h_def, of J]
  have sb: "- 1 \<le> s" "s \<le> 1" unfolding s by (rule sin_dec_range)+
  have s2: "s\<^sup>2 \<noteq> 1"
    using declination_regular[OF alt, of J] dec unfolding s by simp
  have cnn: "0 \<le> c" by (rule cos_dec_square(2)[OF c[unfolded s]])
  have c2: "c\<^sup>2 + s\<^sup>2 = 1" using cos_dec_square(1)[OF c[unfolded s]] unfolding s .
  show c0: "c \<noteq> 0"
  proof
    assume "c = 0"
    then show False using c2 s2 by simp
  qed
  have cpos: "0 < c" using c0 cnn by linarith
  note A = bearing_sin_cos[OF s c sA cA d0 c0, folded A_def]
  let ?b = "radians (ho + lo - ra)"
  have hs: "sin h = sin (?b + A)" "cos h = cos (?b + A)"
    unfolding h_def A_def by (rule point_hour_angle_sin_cos)+
  show "sin (radians (snd (pixel_sky la lo ra de ho pa J q))) = s"
    unfolding pt using sb by simp
  show "cos (radians (snd (pixel_sky la lo ra de ho pa J q))) = c"
    unfolding pt c using sb by (simp add: cos_arcsin)
  show "sA\<^sup>2 + cA\<^sup>2 = 1" by (rule A(3))
  have hc: "cos h * c \<noteq> 0 \<or> sin h * c \<noteq> 0"
  proof -
    have "cos h \<noteq> 0 \<or> sin h \<noteq> 0"
      using sin_zero_abs_cos_one[of h] by auto
    then show ?thesis using c0 by simp
  qed
  have nrm: "sqrt ((cos h * c)\<^sup>2 + (sin h * c)\<^sup>2) = c"
    using scaled_norm[of "cos h" c "sin h"] cpos by simp
  have HA: "sin (arctan2 (sin h * c) (cos h * c)) = sin h"
           "cos (arctan2 (sin h * c) (cos h * c)) = cos h"
    using sin_cos_arctan2[OF hc] c0 by (simp_all add: nrm)
  let ?g = "radians (sidereal_deg J + lo)"
  let ?HA = "arctan2 (sin h * c) (cos h * c)"
  have ra_rad: "radians (sidereal_deg J + lo - degrees ?HA) = ?g - ?HA"
    by (simp add: radians_diff)
  have kA: "k - A = ?g - (?b + A)" unfolding k by simp
  show "cos (radians (fst (pixel_sky la lo ra de ho pa J q))) = cos k * cA + sin k * sA"
  proof -
    have "cos (radians (fst (pixel_sky la lo ra de ho pa J q))) = cos (?g - ?HA)"
      unfolding pt fst_conv cos_radians_pymod ra_rad by (rule refl)
    also have "\<dots> = cos ?g * cos h + sin ?g * sin h"
      by (simp only: cos_diff HA)
    also have "\<dots> = cos ?g * cos (?b + A) + sin ?g * sin (?b + A)"
      by (simp only: hs)
    also have "\<dots> = cos (k - A)" unfolding kA by (simp only: cos_diff)
    also have "\<dots> = cos k * cA + sin k * sA" by (simp only: cos_diff A)
    finally show ?thesis .
  qed
  show "sin (radians (fst (pixel_sky la lo ra de ho pa J q))) = sin k * cA - cos k * sA"
  proof -
    have "sin (radians (fst (pixel_sky la lo ra de ho pa J q))) = sin (?g - ?HA)"
      unfolding pt fst_conv sin_radians_pymod ra_rad by (rule refl)
    also have "\<dots> = sin ?g * cos h - cos ?g * sin h"
      by (simp only: sin_diff HA)
    also have "\<dots> = sin ?g * cos (?b + A) - cos ?g * sin (?b + A)"
      by (simp only: hs)
    also have "\<dots> = sin (k - A)" unfolding kA by (simp only: sin_diff)
    also have "\<dots> = sin k * cA - cos k * sA" by (simp only: sin_diff A)
    finally show ?thesis .
  qed
qed

section \<open>The separation of two sky points\<close>

text \<open>
  The cosine of the separation of the sky points of two rectified points is
  \<open>cos r1 * cos r2 + sin r1 * sin r2 * cos (t1 - t2)\<close> for their radii \<open>r1\<close>, \<open>r2\<close> and
  angles \<open>t1\<close>, \<open>t2\<close> in the image plane; along two rays it decreases strictly with the
  common factor of the radii while the radii add up to at most 180 degrees.
\<close>

lemma separation_algebra:
  fixes s0 c0 s1 s2 c1 c2 sA1 cA1 sA2 cA2 :: real
  assumes u0: "s0\<^sup>2 + c0\<^sup>2 = 1" and c0: "c0 \<noteq> 0" and c1: "c1 \<noteq> 0" and c2: "c2 \<noteq> 0"
    and s1: "s1 = s0 * cr1 + c0 * sr1 * ct1" and s2: "s2 = s0 * cr2 + c0 * sr2 * ct2"
    and sA1: "sA1 = st1 * sr1 / c1" and cA1: "cA1 = (cr1 - s1 * s0) / (c1 * c0)"
    and sA2: "sA2 = st2 * sr2 / c2" and cA2: "cA2 = (cr2 - s2 * s0) / (c2 * c0)"
  shows "s1 * s2 + c1 * c2 * (cA1 * cA2 + sA1 * sA2)
           = cr1 * cr2 + sr1 * sr2 * (ct1 * ct2 + st1 * st2)"
proof -
  have f1: "cr1 - s1 * s0 = c0 * (c0 * cr1 - s0 * sr1 * ct1)"
  proof -
    have "cr1 - s1 * s0 = (1 - s0\<^sup>2) * cr1 - s0 * c0 * sr1 * ct1"
      unfolding s1 by (simp add: power2_eq_square algebra_simps)
    also have "1 - s0\<^sup>2 = c0\<^sup>2" using u0 by linarith
    finally show ?thesis by (simp add: power2_eq_square algebra_simps)
  qed
  have f2: "cr2 - s2 * s0 = c0 * (c0 * cr2 - s0 * sr2 * ct2)"
  proof -
    have "cr2 - s2 * s0 = (1 - s0\<^sup>2) * cr2 - s0 * c0 * sr2 * ct2"
      unfolding s2 by (simp add: power2_eq_square algebra_simps)
    also have "1 - s0\<^sup>2 = c0\<^sup>2" using u0 by linarith
    finally show ?thesis by (simp add: power2_eq_square algebra_simps)
  qed
  have a1: "c1 * cA1 = c0 * cr1 - s0 * sr1 * ct1" unfolding cA1 f1 using c0 c1 by simp
  have a2: "c2 * cA2 = c0 * cr2 - s0 * sr2 * ct2" unfolding cA2 f2 using c0 c2 by simp
  have b1: "c1 * sA1 = st1 * sr1" unfolding sA1 using c1 by simp
  have b2: "c2 * sA2 = st2 * sr2" unfolding sA2 using c2 by simp
  have "s1 * s2 + c1 * c2 * (cA1 * cA2 + sA1 * sA2)
          = s1 * s2 + (c1 * cA1) * (c2 * cA2) + (c1 * sA1) * (c2 * sA2)"
    by (simp add: algebra_simps)
  also have "\<dots> = (s0 * cr1 + c0 * sr1 * ct1) * (s0 * cr2 + c0 * sr2 * ct2)
                  + (c0 * cr1 - s0 * sr1 * ct1) * (c0 * cr2 - s0 * sr2 * ct2)
                  + (st1 * sr1) * (st2 * sr2)"
    unfolding a1 a2 b1 b2 s1 s2 by (rule refl)
  also have "\<dots> = (s0\<^sup>2 + c0\<^sup>2) * (cr1 * cr2) + (s0\<^sup>2 + c0\<^sup>2) * (sr1 * sr2 * ct1 * ct2)
                  + st1 * sr1 * st2 * sr2"
    by (simp add: power2_eq_square algebra_simps)
  also have "\<dots> = cr1 * cr2 + sr1 * sr2 * (ct1 * ct2 + st1 * st2)"
    unfolding u0 by (simp add: algebra_simps)
  finally show ?thesis .
qed

lemma rotation_dot:
  fixes sk ck cA1 sA1 cA2 sA2 :: real
  shows "(ck * cA2 + sk * sA2) * (ck * cA1 + sk * sA1)
           + (sk * cA2 - ck * sA2) * (sk * cA1 - ck * sA1)
         = (sk\<^sup>2 + ck\<^sup>2) * (cA1 * cA2 + sA1 * sA2)"
  by (simp add: power2_eq_square algebra_simps)

lemma ra_difference:
  fixes k cA1 sA1 cA2 sA2 :: real
  assumes "cos r1 = cos k * cA1 + sin k * sA1" "sin r1 = sin k * cA1 - cos k * sA1"
    and "cos r2 = cos k * cA2 + sin k * sA2" "sin r2 = sin k * cA2 - cos k * sA2"
  shows "cos (r2 - r1) = cA1 * cA2 + sA1 * sA2"
proof -
  have "cos (r2 - r1) = (cos k * cA2 + sin k * sA2) * (cos k * cA1 + sin k * sA1)
                        + (sin k * cA2 - cos k * sA2) * (sin k * cA1 - cos k * sA1)"
    by (simp only: cos_diff assms)
  also have "\<dots> = ((sin k)\<^sup>2 + (cos k)\<^sup>2) * (cA1 * cA2 + sA1 * sA2)"
    by (rule rotation_dot)
  finally show ?thesis by simp
qed

lemma cos_product:
  fixes a b c :: real
  shows "cos a * cos b + sin a * sin b * c
           = (1 + c) / 2 * cos (a - b) + (1 - c) / 2 * cos (a + b)"
  by (simp add: cos_diff cos_add field_simps)

lemma two_rays_cos_bounds:
  fixes a b c :: real
  assumes "- 1 \<le> c" "c \<le> 1"
  shows "- 1 \<le> cos a * cos b + sin a * sin b * c" "cos a * cos b + sin a * sin b * c \<le> 1"
proof -
  have p: "0 \<le> (1 + c) / 2" "0 \<le> (1 - c) / 2" using assms by simp_all
  have "(1 + c) / 2 * cos (a - b) + (1 - c) / 2 * cos (a + b)
          \<le> (1 + c) / 2 * 1 + (1 - c) / 2 * 1"
    by (intro add_mono mult_left_mono[OF cos_le_one p(1)] mult_left_mono[OF cos_le_one p(2)])
  also have "\<dots> = 1" by (simp add: field_simps)
  finally show "cos a * cos b + sin a * sin b * c \<le> 1"
    unfolding cos_product .
  have "(1 + c) / 2 * (- 1) + (1 - c) / 2 * (- 1)
          \<le> (1 + c) / 2 * cos (a - b) + (1 - c) / 2 * cos (a + b)"
    by (intro add_mono mult_left_mono[OF cos_ge_minus_one p(1)]
          mult_left_mono[OF cos_ge_minus_one p(2)])
  moreover have "(1 + c) / 2 * (- 1) + (1 - c) / 2 * (- 1) = - 1" by (simp add: field_simps)
  ultimately show "- 1 \<le> cos a * cos b + sin a * sin b * c"
    unfolding cos_product by simp
qed

lemma cos_abs_times: "cos (\<bar>d\<bar> * t) = cos (d * t)" for d t :: real
proof (cases "0 \<le> d")
  case True
  then show ?thesis by simp
next
  case False
  then have "\<bar>d\<bar> * t = - (d * t)" by simp
  then show ?thesis by (simp only: cos_minus)
qed

lemma two_rays_monotone:
  fixes a b c t1 t2 :: real
  assumes a: "0 \<le> a" and b: "0 \<le> b" and c: "- 1 \<le> c" "c \<le> 1"
    and t: "0 < t2" "t2 < t1" and wide: "(a + b) * t1 \<le> pi"
    and strict: "a \<noteq> b \<or> c < 1" and pos: "0 < a + b"
  shows "cos (a * t1) * cos (b * t1) + sin (a * t1) * sin (b * t1) * c
           < cos (a * t2) * cos (b * t2) + sin (a * t2) * sin (b * t2) * c"
proof -
  have sum_lt: "cos ((a + b) * t1) < cos ((a + b) * t2)"
  proof (rule cos_monotone_0_pi)
    show "0 \<le> (a + b) * t2" using a b t by simp
    show "(a + b) * t2 < (a + b) * t1" using pos t by simp
    show "(a + b) * t1 \<le> pi" by (rule wide)
  qed
  have d: "\<bar>a - b\<bar> \<le> a + b" using a b by linarith
  have diff_le: "cos ((a - b) * t1) \<le> cos ((a - b) * t2)"
  proof -
    have "cos (\<bar>a - b\<bar> * t1) \<le> cos (\<bar>a - b\<bar> * t2)"
    proof (rule cos_monotone_0_pi_le)
      show "0 \<le> \<bar>a - b\<bar> * t2" using t by simp
      show "\<bar>a - b\<bar> * t2 \<le> \<bar>a - b\<bar> * t1" using t by (intro mult_left_mono) simp_all
      have "\<bar>a - b\<bar> * t1 \<le> (a + b) * t1" using d t by (intro mult_right_mono) simp_all
      then show "\<bar>a - b\<bar> * t1 \<le> pi" using wide by linarith
    qed
    moreover have "cos (\<bar>a - b\<bar> * t) = cos ((a - b) * t)" for t
      by (rule cos_abs_times)
    ultimately show ?thesis by simp
  qed
  have diff_lt: "cos ((a - b) * t1) < cos ((a - b) * t2)" if "a \<noteq> b"
  proof -
    have "cos (\<bar>a - b\<bar> * t1) < cos (\<bar>a - b\<bar> * t2)"
    proof (rule cos_monotone_0_pi)
      show "0 \<le> \<bar>a - b\<bar> * t2" using t by simp
      show "\<bar>a - b\<bar> * t2 < \<bar>a - b\<bar> * t1" using t that by simp
      have "\<bar>a - b\<bar> * t1 \<le> (a + b) * t1" using d t by (intro mult_right_mono) simp_all
      then show "\<bar>a - b\<bar> * t1 \<le> pi" using wide by linarith
    qed
    moreover have "cos (\<bar>a - b\<bar> * t) = cos ((a - b) * t)" for t
      by (rule cos_abs_times)
    ultimately show ?thesis by simp
  qed
  have p: "0 \<le> (1 + c) / 2" "0 \<le> (1 - c) / 2" using c by simp_all
  have e: "cos (a * t) * cos (b * t) + sin (a * t) * sin (b * t) * c
             = (1 + c) / 2 * cos ((a - b) * t) + (1 - c) / 2 * cos ((a + b) * t)" for t
    unfolding cos_product by (simp add: algebra_simps)
  show ?thesis
  proof (cases "c < 1")
    case True
    then have "0 < (1 - c) / 2" by simp
    then have "(1 - c) / 2 * cos ((a + b) * t1) < (1 - c) / 2 * cos ((a + b) * t2)"
      using sum_lt by simp
    moreover have "(1 + c) / 2 * cos ((a - b) * t1) \<le> (1 + c) / 2 * cos ((a - b) * t2)"
      using p(1) diff_le by (rule mult_left_mono[rotated])
    ultimately show ?thesis unfolding e by linarith
  next
    case False
    then have c1: "c = 1" using c by simp
    then have "a \<noteq> b" using strict by simp
    then have "cos ((a - b) * t1) < cos ((a - b) * t2)" by (rule diff_lt)
    then show ?thesis unfolding e using c1 by simp
  qed
qed

lemma separation_two_points:
  assumes d0: "cos (radians de) \<noteq> 0"
    and r1: "regular_sky_point la lo ra de ho pa J q1"
    and r2: "regular_sky_point la lo ra de ho pa J q2"
  shows "angularSeparation_gc (radians (fst (pixel_sky la lo ra de ho pa J q1)))
           (radians (snd (pixel_sky la lo ra de ho pa J q1)))
           (radians (fst (pixel_sky la lo ra de ho pa J q2)))
           (radians (snd (pixel_sky la lo ra de ho pa J q2)))
         = arccos (cos (plane_radius q1) * cos (plane_radius q2)
                   + sin (plane_radius q1) * sin (plane_radius q2)
                     * cos (plane_angle pa q1 - plane_angle pa q2))"
proof -
  define s1 where "s1 = sin_dec de pa q1"
  define c1 where "c1 = sqrt (1 - s1\<^sup>2)"
  define sA1 where "sA1 = sin (plane_angle pa q1) * sin (plane_radius q1) / c1"
  define cA1 where "cA1 = (cos (plane_radius q1) - s1 * sin (radians de)) / (c1 * cos (radians de))"
  define s2 where "s2 = sin_dec de pa q2"
  define c2 where "c2 = sqrt (1 - s2\<^sup>2)"
  define sA2 where "sA2 = sin (plane_angle pa q2) * sin (plane_radius q2) / c2"
  define cA2 where "cA2 = (cos (plane_radius q2) - s2 * sin (radians de)) / (c2 * cos (radians de))"
  define k where "k = radians (sidereal_deg J + lo) - radians (ho + lo - ra)"
  note p1 = sky_point[OF s1_def c1_def sA1_def cA1_def k_def d0,
      of la, OF r1[unfolded regular_sky_point_def, THEN conjunct1]
               r1[unfolded regular_sky_point_def, THEN conjunct2, THEN conjunct1]
               r1[unfolded regular_sky_point_def, THEN conjunct2, THEN conjunct2, THEN conjunct1]
               r1[unfolded regular_sky_point_def, THEN conjunct2, THEN conjunct2, THEN conjunct2]]
  note p2 = sky_point[OF s2_def c2_def sA2_def cA2_def k_def d0,
      of la, OF r2[unfolded regular_sky_point_def, THEN conjunct1]
               r2[unfolded regular_sky_point_def, THEN conjunct2, THEN conjunct1]
               r2[unfolded regular_sky_point_def, THEN conjunct2, THEN conjunct2, THEN conjunct1]
               r2[unfolded regular_sky_point_def, THEN conjunct2, THEN conjunct2, THEN conjunct2]]
  have ra: "cos (radians (fst (pixel_sky la lo ra de ho pa J q2))
                 - radians (fst (pixel_sky la lo ra de ho pa J q1)))
              = cA1 * cA2 + sA1 * sA2"
    by (rule ra_difference[OF p1(5) p1(6) p2(5) p2(6)])
  have u0: "(sin (radians de))\<^sup>2 + (cos (radians de))\<^sup>2 = 1" by simp
  have sep: "angularSeparation_gc (radians (fst (pixel_sky la lo ra de ho pa J q1)))
           (radians (snd (pixel_sky la lo ra de ho pa J q1)))
           (radians (fst (pixel_sky la lo ra de ho pa J q2)))
           (radians (snd (pixel_sky la lo ra de ho pa J q2)))
         = arccos (s1 * s2 + c1 * c2 * (cA1 * cA2 + sA1 * sA2))"
    unfolding angularSeparation_gc_def p1(1) p1(2) p2(1) p2(2) ra by (rule refl)
  have alg: "s1 * s2 + c1 * c2 * (cA1 * cA2 + sA1 * sA2)
          = cos (plane_radius q1) * cos (plane_radius q2)
            + sin (plane_radius q1) * sin (plane_radius q2)
              * (cos (plane_angle pa q1) * cos (plane_angle pa q2)
                 + sin (plane_angle pa q1) * sin (plane_angle pa q2))"
    by (rule separation_algebra[OF u0 d0 p1(4) p2(4) s1_def[unfolded sin_dec_def]
          s2_def[unfolded sin_dec_def] sA1_def cA1_def sA2_def cA2_def])
  show ?thesis unfolding sep alg cos_diff by (rule refl)
qed

section \<open>The separation under a change of the image scale\<close>

lemma arctan2_scale:
  assumes "0 < k"
  shows "arctan2 (y / k) (x / k) = arctan2 y x"
proof -
  have sg: "0 < x / k \<longleftrightarrow> 0 < x" "x / k < 0 \<longleftrightarrow> x < 0" "0 \<le> y / k \<longleftrightarrow> 0 \<le> y"
    "0 < y / k \<longleftrightarrow> 0 < y" "y / k < 0 \<longleftrightarrow> y < 0"
    using assms by (simp_all add: zero_less_divide_iff divide_less_0_iff zero_le_divide_iff)
  have q: "(y / k) / (x / k) = y / x" using assms by simp
  show ?thesis unfolding arctan2_def sg q by (rule refl)
qed

lemma applyFieldCorrection_point_scale:
  "applyFieldCorrection_point xp yp Xr Yr F p
     = (fst (applyFieldCorrection_point xp yp Xr Yr 1 p) / F,
        snd (applyFieldCorrection_point xp yp Xr Yr 1 p) / F)"
  by (simp add: applyFieldCorrection_point_def Let_def)

lemma plane_radius_scale:
  assumes "0 < F"
  shows "plane_radius (vx / F, vy / F) = plane_radius (vx, vy) * (1 / F)"
proof -
  have "(vx / F)\<^sup>2 + (vy / F)\<^sup>2 = (vx\<^sup>2 + vy\<^sup>2) / F\<^sup>2"
    by (simp add: power_divide add_divide_distrib)
  then have "sqrt ((vx / F)\<^sup>2 + (vy / F)\<^sup>2) = sqrt (vx\<^sup>2 + vy\<^sup>2) / F"
    using assms by (simp add: real_sqrt_divide)
  then show ?thesis by (simp add: plane_radius_def radians_def)
qed

lemma plane_angle_scale:
  assumes "0 < F"
  shows "plane_angle pa (vx / F, vy / F) = plane_angle pa (vx, vy)"
  by (simp add: plane_angle_def arctan2_scale[OF assms])

lemma plane_radius_nonneg: "0 \<le> plane_radius v"
  by (simp add: plane_radius_def radians_def)

lemma plane_radius_eq_iff:
  "plane_radius (x1, y1) = plane_radius (x2, y2) \<longleftrightarrow> x1\<^sup>2 + y1\<^sup>2 = x2\<^sup>2 + y2\<^sup>2"
  by (simp add: plane_radius_def radians_def)

lemma cos_plane_angle_diff:
  "cos (plane_angle pa v1 - plane_angle pa v2)
     = cos (arctan2 (snd v1) (fst v1) - arctan2 (snd v2) (fst v2))"
proof -
  have e: "radians (90 - pa + degrees a) = radians (90 - pa) + a" for a
    by (simp add: radians_add)
  have "cos (plane_angle pa v1 - plane_angle pa v2)
          = cos ((radians (90 - pa) + arctan2 (snd v1) (fst v1))
                 - (radians (90 - pa) + arctan2 (snd v2) (fst v2)))"
    unfolding plane_angle_def
    by (simp only: cos_diff[of "radians (pymod _ 360)"] cos_radians_pymod sin_radians_pymod e
          cos_diff[of "radians (90 - pa) + _", symmetric])
  then show ?thesis by simp
qed

lemma rays_distinct:
  fixes x1 y1 x2 y2 :: real
  assumes "(x1, y1) \<noteq> (x2, y2)"
  shows "plane_radius (x1, y1) \<noteq> plane_radius (x2, y2)
         \<or> cos (arctan2 y1 x1 - arctan2 y2 x2) < 1"
proof (cases "x1\<^sup>2 + y1\<^sup>2 = x2\<^sup>2 + y2\<^sup>2")
  case False
  then show ?thesis by (simp add: plane_radius_eq_iff)
next
  case True
  define n where "n = sqrt (x1\<^sup>2 + y1\<^sup>2)"
  have n2: "n = sqrt (x2\<^sup>2 + y2\<^sup>2)" unfolding n_def True by (rule refl)
  have nz1: "x1 \<noteq> 0 \<or> y1 \<noteq> 0"
  proof (rule ccontr)
    assume "\<not> (x1 \<noteq> 0 \<or> y1 \<noteq> 0)"
    then have "x1 = 0" "y1 = 0" by simp_all
    then have "x2\<^sup>2 + y2\<^sup>2 = 0" using True by simp
    then have "x2 = 0" "y2 = 0" by (simp_all add: sum_power2_eq_zero_iff)
    then show False using assms \<open>x1 = 0\<close> \<open>y1 = 0\<close> by simp
  qed
  then have pos: "0 < x1\<^sup>2 + y1\<^sup>2" by (simp add: sum_power2_gt_zero_iff)
  then have nz2: "x2 \<noteq> 0 \<or> y2 \<noteq> 0" using True by (auto simp: sum_power2_gt_zero_iff)
  have npos: "0 < n" unfolding n_def using pos by simp
  have nn: "n * n = x1\<^sup>2 + y1\<^sup>2" unfolding n_def using pos by simp
  have "cos (arctan2 y1 x1 - arctan2 y2 x2) = (x1 / n) * (x2 / n) + (y1 / n) * (y2 / n)"
    unfolding cos_diff sin_cos_arctan2[OF nz1] sin_cos_arctan2[OF nz2] n_def[symmetric]
      n2[symmetric] by (rule refl)
  also have "\<dots> = (x1 * x2 + y1 * y2) / (x1\<^sup>2 + y1\<^sup>2)"
    unfolding nn[symmetric] by (simp add: add_divide_distrib)
  finally have c: "cos (arctan2 y1 x1 - arctan2 y2 x2) = (x1 * x2 + y1 * y2) / (x1\<^sup>2 + y1\<^sup>2)" .
  have "(x1 - x2)\<^sup>2 + (y1 - y2)\<^sup>2 \<noteq> 0"
    using assms by (simp add: sum_power2_eq_zero_iff)
  then have gt: "0 < (x1 - x2)\<^sup>2 + (y1 - y2)\<^sup>2"
    by (simp add: sum_power2_gt_zero_iff sum_power2_eq_zero_iff)
  have "(x1 - x2)\<^sup>2 + (y1 - y2)\<^sup>2
                   = (x1\<^sup>2 + y1\<^sup>2) + (x2\<^sup>2 + y2\<^sup>2) - 2 * (x1 * x2 + y1 * y2)"
    by (simp add: power2_eq_square algebra_simps)
  also have "\<dots> = 2 * (x1\<^sup>2 + y1\<^sup>2) - 2 * (x1 * x2 + y1 * y2)"
    unfolding True[symmetric] by simp
  finally have "0 < 2 * (x1\<^sup>2 + y1\<^sup>2) - 2 * (x1 * x2 + y1 * y2)"
    using gt by simp
  then have "x1 * x2 + y1 * y2 < x1\<^sup>2 + y1\<^sup>2" by simp
  then have "(x1 * x2 + y1 * y2) / (x1\<^sup>2 + y1\<^sup>2) < 1" using pos by simp
  then show ?thesis unfolding c by simp
qed

lemma pair_separation_decreases:
  fixes F1 F2 :: real
  assumes F: "0 < F1" "F1 < F2" and d0: "cos (radians de) \<noteq> 0"
    and q: "\<And>F. q1 F = applyFieldCorrection_point xp yp Xr Yr F p1"
           "\<And>F. q2 F = applyFieldCorrection_point xp yp Xr Yr F p2"
    and reg: "regular_sky_point la lo ra de ho pa J (q1 F1)"
             "regular_sky_point la lo ra de ho pa J (q2 F1)"
             "regular_sky_point la lo ra de ho pa J (q1 F2)"
             "regular_sky_point la lo ra de ho pa J (q2 F2)"
    and wide: "plane_radius (q1 F1) + plane_radius (q2 F1) \<le> pi"
    and dist: "q1 F1 \<noteq> q2 F1"
  shows "separation_deg la lo ra de ho pa J (q1 F2) (q2 F2)
           < separation_deg la lo ra de ho pa J (q1 F1) (q2 F1)"
proof -
  define v1 where "v1 = q1 1"
  define v2 where "v2 = q2 1"
  define a where "a = plane_radius v1"
  define b where "b = plane_radius v2"
  define c where "c = cos (plane_angle pa v1 - plane_angle pa v2)"
  have qF: "q1 F = (fst v1 / F, snd v1 / F)" "q2 F = (fst v2 / F, snd v2 / F)" for F
    unfolding v1_def v2_def q by (rule applyFieldCorrection_point_scale)+
  have rad: "plane_radius (q1 F) = a * (1 / F)" "plane_radius (q2 F) = b * (1 / F)" if "0 < F" for F
    unfolding qF a_def b_def using plane_radius_scale[OF that] by simp_all
  have ang: "plane_angle pa (q1 F) = plane_angle pa v1" "plane_angle pa (q2 F) = plane_angle pa v2"
    if "0 < F" for F
    unfolding qF using plane_angle_scale[OF that] by simp_all
  have F2: "0 < F2" using F by simp
  have sep: "separation_deg la lo ra de ho pa J (q1 F) (q2 F)
               = degrees (arccos (cos (a * (1 / F)) * cos (b * (1 / F))
                                  + sin (a * (1 / F)) * sin (b * (1 / F)) * c))"
    if "0 < F" "regular_sky_point la lo ra de ho pa J (q1 F)"
       "regular_sky_point la lo ra de ho pa J (q2 F)" for F
    unfolding separation_deg_def separation_two_points[OF d0 that(2,3)]
      rad[OF that(1)] ang[OF that(1)] c_def by (rule refl)
  have ab: "0 \<le> a" "0 \<le> b" unfolding a_def b_def by (rule plane_radius_nonneg)+
  have cb: "- 1 \<le> c" "c \<le> 1" unfolding c_def by simp_all
  have vd: "v1 \<noteq> v2"
  proof
    assume "v1 = v2"
    then have "q1 F1 = q2 F1" unfolding qF by simp
    then show False using dist by simp
  qed
  then have vd': "(fst v1, snd v1) \<noteq> (fst v2, snd v2)" by (simp add: prod_eq_iff)
  have strict: "a \<noteq> b \<or> c < 1"
    using rays_distinct[OF vd'] unfolding a_def b_def c_def cos_plane_angle_diff by simp
  have pos: "0 < a + b"
  proof (rule ccontr)
    assume "\<not> 0 < a + b"
    then have "a = 0" "b = 0" using ab by linarith+
    then have "fst v1 = 0 \<and> snd v1 = 0" "fst v2 = 0 \<and> snd v2 = 0"
      unfolding a_def b_def plane_radius_def radians_def
      by (simp_all add: real_sqrt_eq_zero_cancel_iff sum_power2_eq_zero_iff)
    then show False using vd' by simp
  qed
  have t: "0 < 1 / F2" "1 / F2 < 1 / F1" using F by (simp_all add: frac_less2)
  have w: "(a + b) * (1 / F1) \<le> pi"
    using wide unfolding rad[OF F(1)] by (simp add: add_divide_distrib)
  let ?G = "\<lambda>F. cos (a * (1 / F)) * cos (b * (1 / F)) + sin (a * (1 / F)) * sin (b * (1 / F)) * c"
  have lt: "?G F1 < ?G F2"
    by (rule two_rays_monotone[OF ab cb t w strict pos])
  have "arccos (?G F2) < arccos (?G F1)"
    by (rule arccos_less_arccos[OF two_rays_cos_bounds(1)[OF cb] lt two_rays_cos_bounds(2)[OF cb]])
  then have "degrees (arccos (?G F2)) < degrees (arccos (?G F1))"
    by (rule degrees_strict_mono)
  then show ?thesis
    unfolding sep[OF F(1) reg(1,2)] sep[OF F2 reg(3,4)] .
qed

section \<open>The field of view and the image scale\<close>

lemma cyXYToRADec_py_value:
  assumes "12 \<le> length xp" "12 \<le> length yp" "length X = length Y" "length X \<le> length J"
  shows "cyXYToRADec_py J X Y la lo ho Xr Yr ra de pa F xp yp =
           Inr (map (\<lambda>i. fst (pixel_sky la lo ra de ho pa (J ! i)
                                 (applyFieldCorrection_point xp yp Xr Yr F (X ! i, Y ! i))))
                  [0..<length X],
                map (\<lambda>i. snd (pixel_sky la lo ra de ho pa (J ! i)
                                 (applyFieldCorrection_point xp yp Xr Yr F (X ! i, Y ! i))))
                  [0..<length X])"
  using assms
  by (simp add: cyXYToRADec_py_def XY2altAz_map[OF assms(1,2,3)] Let_def pixel_sky_def)

lemma date2JD_all_replicate:
  assumes "date2JD ext t 0 = Inr j"
  shows "date2JD_all ext (replicate n t) = Inr (replicate n j)"
  by (induction n) (simp_all add: assms)

lemma computeFOVSize_value:
  assumes cy: "cyXYToRADec ext = cyXYToRADec_py"
    and sep: "angularSeparation ext = angularSeparation_gc"
    and jd: "date2JD ext (jd2Date ext (JD pp)) 0 = Inr J"
    and poly: "12 \<le> length (x_poly_fwd pp)" "12 \<le> length (y_poly_fwd pp)"
  shows "computeFOVSize ext pp =
           Inr (sky_separation pp J (mid_left pp) (mid_right pp),
                sky_separation pp J (mid_top pp) (mid_bottom pp))"
proof -
  let ?X = "[0, of_int (X_res pp), of_int (X_res pp) / 2, of_int (X_res pp) / 2] :: real list"
  let ?Y = "[of_int (Y_res pp) / 2, of_int (Y_res pp) / 2, 0, of_int (Y_res pp)] :: real list"
  have up: "[0..<4] = [0, 1, 2, 3]" by (simp add: upt_rec)
  have run: "XY2CorrectedRADecPP ext (replicate 4 (jd2Date ext (JD pp))) ?X ?Y [1, 1, 1, 1] pp
               = Inr (replicate 4 J,
                      map (\<lambda>i. fst (pixel_sky (lat pp) (lon pp) (RA_d pp) (dec_d pp) (Ho pp)
                                        (pos_angle_ref pp) J (rectified pp (?X ! i, ?Y ! i))))
                        [0, 1, 2, 3],
                      map (\<lambda>i. snd (pixel_sky (lat pp) (lon pp) (RA_d pp) (dec_d pp) (Ho pp)
                                        (pos_angle_ref pp) J (rectified pp (?X ! i, ?Y ! i))))
                        [0, 1, 2, 3],
                      calculateMagnitudes [1, 1, 1, 1] (mag_0 pp) (mag_lev pp))"
    unfolding XY2CorrectedRADecPP_def XY2CorrectedRADec_def date2JD_all_replicate[OF jd] cy
    using cyXYToRADec_py_value[OF poly, of ?X ?Y "replicate 4 J" "lat pp" "lon pp" "Ho pp"
        "of_int (X_res pp)" "of_int (Y_res pp)" "RA_d pp" "dec_d pp" "pos_angle_ref pp"
        "F_scale pp"]
    by (simp add: up rectified_def Let_def)
  show ?thesis
    unfolding computeFOVSize_def Let_def run sep
    by (simp add: sky_separation_def separation_deg_def mid_left_def mid_right_def mid_top_def
        mid_bottom_def)
qed

lemma regular_sky_pointI:
  assumes "(sin_alt la lo ra de ho pa q)\<^sup>2 \<noteq> 1" "(sin_dec de pa q)\<^sup>2 \<noteq> 1"
  shows "regular_sky_point la lo ra de ho pa J q"
proof -
  note a = altitude_regular[OF assms(1)]
  have "\<not> (snd (pixel_sky la lo ra de ho pa J q) = 90
           \<or> snd (pixel_sky la lo ra de ho pa J q) = - 90)"
    using declination_regular[OF a, of J] assms(2) by simp
  then show ?thesis unfolding regular_sky_point_def using a by simp
qed

lemma sin_dec_equator: "sin_dec 0 pa q = sin (plane_radius q) * cos (plane_angle pa q)"
  by (simp add: sin_dec_def radians_def)

lemma sin_alt_equator:
  assumes "(sin_dec 0 pa q)\<^sup>2 \<noteq> 1"
  shows "sin_alt 0 0 0 0 0 pa q = cos (plane_radius q)"
proof -
  define s where "s = sin_dec 0 pa q"
  define c where "c = sqrt (1 - s\<^sup>2)"
  define sA where "sA = sin (plane_angle pa q) * sin (plane_radius q) / c"
  define cA where "cA = (cos (plane_radius q) - s * sin (radians 0)) / (c * cos (radians 0))"
  have r0: "sin (radians 0) = 0" "cos (radians 0) = 1" by (simp_all add: radians_def)
  have d0: "cos (radians 0) \<noteq> 0" unfolding r0 by simp
  have c2: "c\<^sup>2 + s\<^sup>2 = 1"
    using cos_dec_square(1)[OF c_def[unfolded s_def]] unfolding s_def .
  have c0: "c \<noteq> 0"
  proof
    assume "c = 0"
    then show False using c2 assms unfolding s_def by simp
  qed
  note A = bearing_sin_cos[OF s_def c_def sA_def cA_def d0 c0]
  have h: "cos (point_hour_angle 0 0 0 0 pa q) = cA"
    unfolding point_hour_angle_sin_cos A(2)[symmetric] by (simp add: radians_def)
  have "sin_alt 0 0 0 0 0 pa q = cA * c"
    unfolding sin_alt_def h r0 c_def s_def by simp
  also have "\<dots> = cos (plane_radius q)"
    using A(4) unfolding r0 by (simp add: mult.commute)
  finally show ?thesis .
qed

lemma regular_equator:
  assumes "(sin_dec 0 pa q)\<^sup>2 \<noteq> 1" "(cos (plane_radius q))\<^sup>2 \<noteq> 1"
  shows "regular_sky_point 0 0 0 0 0 pa J q"
  by (rule regular_sky_pointI) (simp_all only: sin_alt_equator[OF assms(1)] assms not_False_eq_True)

lemma regular_equator_narrow:
  assumes "0 < plane_radius q" "plane_radius q < pi / 2"
  shows "regular_sky_point 0 0 0 0 0 pa J q"
proof (rule regular_equator)
  let ?r = "plane_radius q"
  have cp: "0 < cos ?r" using assms by (intro cos_gt_zero_pi) linarith+
  have sp: "0 < sin ?r" using assms by (intro sin_gt_zero) linarith+
  have c1: "(cos ?r)\<^sup>2 < 1"
  proof -
    have "0 < (sin ?r)\<^sup>2" using sp by simp
    then show ?thesis using sin_squared_eq[of ?r] by linarith
  qed
  then show "(cos ?r)\<^sup>2 \<noteq> 1" by simp
  have s1: "(sin ?r)\<^sup>2 < 1"
  proof -
    have "0 < (cos ?r)\<^sup>2" using cp by simp
    then show ?thesis using sin_squared_eq[of ?r] by linarith
  qed
  have "(sin_dec 0 pa q)\<^sup>2 = (sin ?r)\<^sup>2 * (cos (plane_angle pa q))\<^sup>2"
    unfolding sin_dec_equator by (simp add: power_mult_distrib)
  also have "\<dots> \<le> (sin ?r)\<^sup>2 * 1"
    by (intro mult_left_mono) (simp_all add: abs_square_le_1)
  finally have "(sin_dec 0 pa q)\<^sup>2 < 1" using s1 by simp
  then show "(sin_dec 0 pa q)\<^sup>2 \<noteq> 1" by simp
qed

lemma sky_separation_decreases:
  assumes F: "0 < F1" "F1 < F2" and d0: "cos (radians (dec_d pp)) \<noteq> 0"
    and r1: "regular_sky_point (lat pp) (lon pp) (RA_d pp) (dec_d pp) (Ho pp) (pos_angle_ref pp) J
               (rectified (pp\<lparr>F_scale := F1\<rparr>) p1)"
            "regular_sky_point (lat pp) (lon pp) (RA_d pp) (dec_d pp) (Ho pp) (pos_angle_ref pp) J
               (rectified (pp\<lparr>F_scale := F1\<rparr>) p2)"
    and r2: "regular_sky_point (lat pp) (lon pp) (RA_d pp) (dec_d pp) (Ho pp) (pos_angle_ref pp) J
               (rectified (pp\<lparr>F_scale := F2\<rparr>) p1)"
            "regular_sky_point (lat pp) (lon pp) (RA_d pp) (dec_d pp) (Ho pp) (pos_angle_ref pp) J
               (rectified (pp\<lparr>F_scale := F2\<rparr>) p2)"
    and wide: "plane_radius (rectified (pp\<lparr>F_scale := F1\<rparr>) p1)
               + plane_radius (rectified (pp\<lparr>F_scale := F1\<rparr>) p2) \<le> pi"
    and dist: "rectified (pp\<lparr>F_scale := F1\<rparr>) p1 \<noteq> rectified (pp\<lparr>F_scale := F1\<rparr>) p2"
  shows "sky_separation (pp\<lparr>F_scale := F2\<rparr>) J p1 p2 < sky_separation (pp\<lparr>F_scale := F1\<rparr>) J p1 p2"
proof -
  define q1 where "q1 F = rectified (pp\<lparr>F_scale := F\<rparr>) p1" for F
  define q2 where "q2 F = rectified (pp\<lparr>F_scale := F\<rparr>) p2" for F
  have q: "q1 F = applyFieldCorrection_point (x_poly_fwd pp) (y_poly_fwd pp) (of_int (X_res pp))
                    (of_int (Y_res pp)) F p1"
          "q2 F = applyFieldCorrection_point (x_poly_fwd pp) (y_poly_fwd pp) (of_int (X_res pp))
                    (of_int (Y_res pp)) F p2" for F
    unfolding q1_def q2_def rectified_def by simp_all
  have "separation_deg (lat pp) (lon pp) (RA_d pp) (dec_d pp) (Ho pp) (pos_angle_ref pp) J
          (q1 F2) (q2 F2)
        < separation_deg (lat pp) (lon pp) (RA_d pp) (dec_d pp) (Ho pp) (pos_angle_ref pp) J
          (q1 F1) (q2 F1)"
    by (rule pair_separation_decreases[OF F d0 q r1[folded q1_def q2_def]
          r2[folded q1_def q2_def] wide[folded q1_def q2_def] dist[folded q1_def q2_def]])
  then show ?thesis
    unfolding sky_separation_def q1_def q2_def by simp
qed

lemma mid_scale [simp]:
  "mid_left (pp\<lparr>F_scale := F\<rparr>) = mid_left pp" "mid_right (pp\<lparr>F_scale := F\<rparr>) = mid_right pp"
  "mid_top (pp\<lparr>F_scale := F\<rparr>) = mid_top pp" "mid_bottom (pp\<lparr>F_scale := F\<rparr>) = mid_bottom pp"
  by (simp_all add: mid_left_def mid_right_def mid_top_def mid_bottom_def)

text \<open>
  Claim C8. With the pixel-to-sky step and the angular separation modelled above, for a
  platepar whose reference declination is not 90 or -90 degrees and two image scales
  \<open>0 < F1 < F2\<close> at the same resolution: if at both scales the four middles of the image
  sides are regular sky points, and at the scale \<open>F1\<close> the field spans at most half the
  sky and opposite middles are rectified to different points, then \<open>computeFOVSize\<close>
  returns at both scales, and both values at \<open>F2\<close> are strictly less than those at \<open>F1\<close>.
  Without the bound on the field the values can grow with the scale: for a field wider
  than half the sky the separation is measured the short way round.
\<close>

theorem computeFOVSize_decreases_with_scale:
  assumes cy: "cyXYToRADec ext = cyXYToRADec_py"
    and sep: "angularSeparation ext = angularSeparation_gc"
    and jd: "date2JD ext (jd2Date ext (JD pp)) 0 = Inr J"
    and poly: "12 \<le> length (x_poly_fwd pp)" "12 \<le> length (y_poly_fwd pp)"
    and F: "0 < F1" "F1 < F2"
    and d0: "cos (radians (dec_d pp)) \<noteq> 0"
    and reg: "edge_midpoints_regular (pp\<lparr>F_scale := F1\<rparr>) J"
             "edge_midpoints_regular (pp\<lparr>F_scale := F2\<rparr>) J"
    and half: "field_within_half_sky (pp\<lparr>F_scale := F1\<rparr>)"
    and dist: "edge_midpoints_distinct (pp\<lparr>F_scale := F1\<rparr>)"
  shows "\<exists>h1 v1 h2 v2.
           computeFOVSize ext (pp\<lparr>F_scale := F1\<rparr>) = Inr (h1, v1)
           \<and> computeFOVSize ext (pp\<lparr>F_scale := F2\<rparr>) = Inr (h2, v2)
           \<and> h2 < h1 \<and> v2 < v1"
proof -
  have v: "computeFOVSize ext (pp\<lparr>F_scale := F\<rparr>)
             = Inr (sky_separation (pp\<lparr>F_scale := F\<rparr>) J (mid_left pp) (mid_right pp),
                    sky_separation (pp\<lparr>F_scale := F\<rparr>) J (mid_top pp) (mid_bottom pp))" for F
    using computeFOVSize_value[OF cy sep, of "pp\<lparr>F_scale := F\<rparr>" J] jd poly by simp
  have r1: "regular_sky_point (lat pp) (lon pp) (RA_d pp) (dec_d pp) (Ho pp) (pos_angle_ref pp) J
              (rectified (pp\<lparr>F_scale := F1\<rparr>) p)"
    if "p \<in> {mid_left pp, mid_right pp, mid_top pp, mid_bottom pp}" for p
    using reg(1) that unfolding edge_midpoints_regular_def by auto
  have r2: "regular_sky_point (lat pp) (lon pp) (RA_d pp) (dec_d pp) (Ho pp) (pos_angle_ref pp) J
              (rectified (pp\<lparr>F_scale := F2\<rparr>) p)"
    if "p \<in> {mid_left pp, mid_right pp, mid_top pp, mid_bottom pp}" for p
    using reg(2) that unfolding edge_midpoints_regular_def by auto
  have h: "sky_separation (pp\<lparr>F_scale := F2\<rparr>) J (mid_left pp) (mid_right pp)
           < sky_separation (pp\<lparr>F_scale := F1\<rparr>) J (mid_left pp) (mid_right pp)"
    using half dist unfolding field_within_half_sky_def edge_midpoints_distinct_def
    by (intro sky_separation_decreases[OF F d0] r1 r2) simp_all
  have w: "sky_separation (pp\<lparr>F_scale := F2\<rparr>) J (mid_top pp) (mid_bottom pp)
           < sky_separation (pp\<lparr>F_scale := F1\<rparr>) J (mid_top pp) (mid_bottom pp)"
    using half dist unfolding field_within_half_sky_def edge_midpoints_distinct_def
    by (intro sky_separation_decreases[OF F d0] r1 r2) simp_all
  show ?thesis unfolding v using h w by simp
qed

lemma rectified_equatorial:
  "rectified (equatorial_platepar\<lparr>F_scale := F\<rparr>) (x, y) = ((x - 360) / F, (y - 360) / F)"
  by (simp add: rectified_def equatorial_platepar_def applyFieldCorrection_point_def
      dX_fwd_def dY_fwd_def Let_def)

lemma mid_equatorial:
  "mid_left equatorial_platepar = (0, 360)" "mid_right equatorial_platepar = (720, 360)"
  "mid_top equatorial_platepar = (360, 0)" "mid_bottom equatorial_platepar = (360, 720)"
  by (simp_all add: mid_left_def mid_right_def mid_top_def mid_bottom_def equatorial_platepar_def)

lemma plane_radius_axis:
  "plane_radius (a, 0) = radians \<bar>a\<bar>" "plane_radius (0, a) = radians \<bar>a\<bar>"
  by (simp_all add: plane_radius_def)

lemma plane_angle_left:
  assumes "0 < a"
  shows "plane_angle 0 (- a, 0) = radians 270"
proof -
  have "arctan2 0 (- a) = pi" using assms by (simp add: arctan2_def)
  then have "90 - 0 + degrees (arctan2 (snd (- a, 0 :: real)) (fst (- a, 0 :: real))) = 270"
    by (simp add: degrees_values)
  then show ?thesis unfolding plane_angle_def by (simp add: pymod_id)
qed

lemma plane_angle_right:
  assumes "0 < a"
  shows "plane_angle 0 (a, 0) = radians 90"
proof -
  have "arctan2 0 a = 0" using assms by (simp add: arctan2_def)
  then have "90 - 0 + degrees (arctan2 (snd (a, 0 :: real)) (fst (a, 0 :: real))) = 90"
    by (simp add: degrees_values)
  then show ?thesis unfolding plane_angle_def by (simp add: pymod_id)
qed

lemma horizontal_pair_separation:
  assumes a: "0 < a" "a < 180"
  shows "separation_deg 0 0 0 0 0 0 J (- a, 0) (a, 0)
           = (if a \<le> 90 then 2 * a else 360 - 2 * a)"
proof -
  let ?r = "radians a"
  have r: "0 < ?r" "?r < pi" using a by (simp_all add: radians_def)
  have pr: "plane_radius (- a, 0) = ?r" "plane_radius (a, 0) = ?r"
    using a by (simp_all add: plane_radius_axis)
  have c270: "cos (radians 270) = 0"
  proof -
    have e: "radians 270 = 3 / 2 * pi" by (simp add: radians_def)
    show ?thesis unfolding e by (rule cos_3over2_pi)
  qed
  have c90: "cos (radians 90) = 0" by (simp add: radians_def)
  have sd: "sin_dec 0 0 (- a, 0) = 0" "sin_dec 0 0 (a, 0) = 0"
    unfolding sin_dec_equator plane_angle_left[OF a(1)] plane_angle_right[OF a(1)] c270 c90
    by simp_all
  have cr: "(cos ?r)\<^sup>2 \<noteq> 1"
  proof -
    have "0 < sin ?r" using r by (intro sin_gt_zero) 
    then have "0 < (sin ?r)\<^sup>2" by simp
    then show ?thesis using sin_squared_eq[of ?r] by linarith
  qed
  have reg: "regular_sky_point 0 0 0 0 0 0 J (- a, 0)" "regular_sky_point 0 0 0 0 0 0 J (a, 0)"
    by (rule regular_equator; simp add: sd pr cr)+
  have d0: "cos (radians 0) \<noteq> 0" by (simp add: radians_def)
  have dth: "cos (radians 270 - radians 90) = - 1"
  proof -
    have "radians 270 - radians 90 = pi" by (simp add: radians_def)
    then show ?thesis by simp
  qed
  have "separation_deg 0 0 0 0 0 0 J (- a, 0) (a, 0)
          = degrees (arccos (cos ?r * cos ?r + sin ?r * sin ?r * (- 1)))"
    unfolding separation_deg_def separation_two_points[OF d0 reg] pr
      plane_angle_left[OF a(1)] plane_angle_right[OF a(1)] dth by (rule refl)
  also have "cos ?r * cos ?r + sin ?r * sin ?r * (- 1) = cos (2 * ?r)"
    by (simp add: cos_double power2_eq_square)
  finally have sep: "separation_deg 0 0 0 0 0 0 J (- a, 0) (a, 0) = degrees (arccos (cos (2 * ?r)))" .
  show ?thesis
  proof (cases "a \<le> 90")
    case True
    then have "0 \<le> 2 * ?r" "2 * ?r \<le> pi" using a by (simp_all add: radians_def)
    then have e: "arccos (cos (2 * ?r)) = 2 * ?r" by (rule arccos_cos)
    have d: "degrees (2 * ?r) = 2 * a" by (simp add: radians_def degrees_def)
    show ?thesis unfolding sep e d using True by simp
  next
    case False
    then have b: "0 \<le> 2 * pi - 2 * ?r" "2 * pi - 2 * ?r \<le> pi"
      using a by (simp_all add: radians_def)
    have "cos (2 * ?r) = cos (2 * pi - 2 * ?r)" by (simp only: cos_2pi_minus)
    then have e: "arccos (cos (2 * ?r)) = 2 * pi - 2 * ?r"
      using arccos_cos[OF b] by simp
    have d: "degrees (2 * pi - 2 * ?r) = 360 - 2 * a"
      by (simp add: radians_def degrees_def field_simps)
    show ?thesis unfolding sep e d using False by simp
  qed
qed

lemma sample_externals_fields:
  "cyXYToRADec sample_externals = cyXYToRADec_py"
  "angularSeparation sample_externals = angularSeparation_gc"
  "date2JD sample_externals (jd2Date sample_externals (JD equatorial_platepar)) 0 = Inr 2451545"
  by (simp_all add: sample_externals_def equatorial_platepar_def)

lemma equatorial_fields:
  "lat (equatorial_platepar\<lparr>F_scale := F\<rparr>) = 0" "lon (equatorial_platepar\<lparr>F_scale := F\<rparr>) = 0"
  "RA_d (equatorial_platepar\<lparr>F_scale := F\<rparr>) = 0" "dec_d (equatorial_platepar\<lparr>F_scale := F\<rparr>) = 0"
  "Ho (equatorial_platepar\<lparr>F_scale := F\<rparr>) = 0"
  "pos_angle_ref (equatorial_platepar\<lparr>F_scale := F\<rparr>) = 0"
  "JD (equatorial_platepar\<lparr>F_scale := F\<rparr>) = 2451545"
  "length (x_poly_fwd (equatorial_platepar\<lparr>F_scale := F\<rparr>)) = 12"
  "length (y_poly_fwd (equatorial_platepar\<lparr>F_scale := F\<rparr>)) = 12"
  by (simp_all add: equatorial_platepar_def)

lemma equatorial_regular:
  assumes "4 < F"
  shows "edge_midpoints_regular (equatorial_platepar\<lparr>F_scale := F\<rparr>) J"
proof -
  have F: "0 < F" using assms by simp
  have b: "0 < radians (360 / F)" "radians (360 / F) < pi / 2"
    using assms F by (simp_all add: radians_def field_simps)
  have p: "plane_radius (- (360 / F), 0) = radians (360 / F)"
          "plane_radius (360 / F, 0) = radians (360 / F)"
          "plane_radius (0, - (360 / F)) = radians (360 / F)"
          "plane_radius (0, 360 / F) = radians (360 / F)"
    using F by (simp_all add: plane_radius_axis)
  have r: "regular_sky_point 0 0 0 0 0 0 J q" if "plane_radius q = radians (360 / F)" for q
    by (rule regular_equator_narrow) (simp_all only: that b)
  have "regular_sky_point 0 0 0 0 0 0 J (- (360 / F), 0) \<and>
        regular_sky_point 0 0 0 0 0 0 J (360 / F, 0) \<and>
        regular_sky_point 0 0 0 0 0 0 J (0, - (360 / F)) \<and>
        regular_sky_point 0 0 0 0 0 0 J (0, 360 / F)"
    by (intro conjI r p)
  then show ?thesis
    unfolding edge_midpoints_regular_def mid_scale mid_equatorial equatorial_fields
    by (simp add: rectified_equatorial)
qed

theorem computeFOVSize_decreases_with_scale_witness:
  "\<exists>h1 v1 h2 v2.
     computeFOVSize sample_externals (equatorial_platepar\<lparr>F_scale := 8\<rparr>) = Inr (h1, v1)
     \<and> computeFOVSize sample_externals (equatorial_platepar\<lparr>F_scale := 12\<rparr>) = Inr (h2, v2)
     \<and> h2 < h1 \<and> v2 < v1"
proof -
  have poly: "12 \<le> length (x_poly_fwd equatorial_platepar)"
             "12 \<le> length (y_poly_fwd equatorial_platepar)"
    by (simp_all add: equatorial_platepar_def)
  have F: "(0::real) < 8" "(8::real) < 12" by simp_all
  have d0: "cos (radians (dec_d equatorial_platepar)) \<noteq> 0"
    by (simp add: equatorial_platepar_def radians_def)
  have reg: "edge_midpoints_regular (equatorial_platepar\<lparr>F_scale := 8\<rparr>) 2451545"
            "edge_midpoints_regular (equatorial_platepar\<lparr>F_scale := 12\<rparr>) 2451545"
    by (rule equatorial_regular; simp)+
  have half: "field_within_half_sky (equatorial_platepar\<lparr>F_scale := 8\<rparr>)"
    unfolding field_within_half_sky_def mid_scale mid_equatorial rectified_equatorial
    by (simp add: plane_radius_axis radians_def)
  have dist: "edge_midpoints_distinct (equatorial_platepar\<lparr>F_scale := 8\<rparr>)"
    unfolding edge_midpoints_distinct_def mid_scale mid_equatorial rectified_equatorial
    by simp
  show ?thesis
    by (rule computeFOVSize_decreases_with_scale[OF sample_externals_fields poly F d0 reg half dist])
qed

theorem computeFOVSize_wide_field_counterexample:
  "\<exists>v1 v2.
     computeFOVSize sample_externals (equatorial_platepar\<lparr>F_scale := 3\<rparr>) = Inr (120, v1)
     \<and> computeFOVSize sample_externals (equatorial_platepar\<lparr>F_scale := 4\<rparr>) = Inr (180, v2)"
proof -
  have v: "computeFOVSize sample_externals (equatorial_platepar\<lparr>F_scale := F\<rparr>)
             = Inr (sky_separation (equatorial_platepar\<lparr>F_scale := F\<rparr>) 2451545 (0, 360) (720, 360),
                    sky_separation (equatorial_platepar\<lparr>F_scale := F\<rparr>) 2451545 (360, 0) (360, 720))"
    for F
    using computeFOVSize_value[OF sample_externals_fields(1,2),
        of "equatorial_platepar\<lparr>F_scale := F\<rparr>" 2451545]
    by (simp add: sample_externals_def equatorial_platepar_def mid_left_def mid_right_def
        mid_top_def mid_bottom_def)
  have h: "sky_separation (equatorial_platepar\<lparr>F_scale := F\<rparr>) J (0, 360) (720, 360)
             = separation_deg 0 0 0 0 0 0 J (- (360 / F), 0) (360 / F, 0)" for F J
    unfolding sky_separation_def rectified_equatorial equatorial_fields by simp
  have "separation_deg 0 0 0 0 0 0 2451545 (- (360 / 3), 0) (360 / 3, 0) = 120"
    using horizontal_pair_separation[of "360 / 3" 2451545] by simp
  moreover have "separation_deg 0 0 0 0 0 0 2451545 (- (360 / 4), 0) (360 / 4, 0) = 180"
    using horizontal_pair_separation[of "360 / 4" 2451545] by simp
  ultimately show ?thesis unfolding v h by simp
qed

end
